theory Spec2Isabelle
  imports Complex_Main "HOL-Library.Sublist"
begin

section \<open>Go integers, durations and instants\<close>

text \<open>
  Go's \<open>int\<close> is a 64-bit two's complement integer on the platforms the program targets.
  It is modelled as an \<open>int\<close> of HOL; every arithmetic operation of the source that can
  leave the 64-bit range is wrapped with \<open>wrap64\<close>, as Go's arithmetic wraps.
\<close>

definition max_int64 :: int where
  "max_int64 = 9223372036854775807"

definition min_int64 :: int where
  "min_int64 = - 9223372036854775808"

definition wrap64 :: "int \<Rightarrow> int" where
  "wrap64 x = (x + 9223372036854775808) mod 18446744073709551616 - 9223372036854775808"


text \<open>
  \<open>time.Duration\<close> is an \<open>int64\<close> count of nanoseconds. A \<open>time.Time\<close> is modelled as
  the number of nanoseconds since the zero Time (January 1, year 1, 00:00:00 UTC), the
  instant for which \<open>IsZero\<close> holds. One clock is modelled: the wall clock and the
  monotonic reading of \<open>time.Now\<close> are not told apart.
\<close>

type_synonym duration = int
type_synonym time = int

definition Millisecond :: duration where
  "Millisecond = 1000000"

definition Second :: duration where
  "Second = 1000000000"

definition Minute :: duration where
  "Minute = 60 * Second"

definition IsZero :: "time \<Rightarrow> bool" where
  "IsZero t = (t = 0)"

text \<open>\<open>t.Sub(u)\<close> of package time: the difference, saturated to the range of a Duration.\<close>

definition Sub :: "time \<Rightarrow> time \<Rightarrow> duration" where
  "Sub t u =
     (let d = t - u in
      if d > max_int64 then max_int64 else if d < min_int64 then min_int64 else d)"

text \<open>\<open>time.Since(t)\<close> is \<open>time.Now().Sub(t)\<close>; the current instant is an argument.\<close>

definition Since :: "time \<Rightarrow> time \<Rightarrow> duration" where
  "Since now t = Sub now t"

subsection \<open>Decimal rendering of an integer (the verb \<open>%d\<close> of \<open>fmt.Sprintf\<close>)\<close>

definition digit_char :: "nat \<Rightarrow> char" where
  "digit_char n = ''0123456789'' ! (n mod 10)"

function dec_nat :: "nat \<Rightarrow> string" where
  "dec_nat n = (if n < 10 then [digit_char n] else dec_nat (n div 10) @ [digit_char n])"
  by pat_completeness auto
termination
  by (relation "measure id") auto

definition fmt_d :: "int \<Rightarrow> string" where
  "fmt_d i = (if i < 0 then CHR ''-'' # dec_nat (nat (- i)) else dec_nat (nat i))"

section \<open>Rate limiting: \<open>Limits\<close>\<close>

record LimitsConfig =
  DailyConnections :: int
  DailyMessages :: int
  DailySearches :: int
  ConnectionCooldown :: duration
  MessageCooldown :: duration
  MaxConsecutiveActions :: int

text \<open>
  The fields of \<open>Limits\<close>. The mutex and the logger are left out: every method takes the
  lock for its whole body, and logging changes no field.
\<close>

record Limits =
  config :: LimitsConfig
  connectionCount :: int
  messageCount :: int
  searchCount :: int
  lastConnection :: time
  lastMessage :: time
  consecutiveCount :: int
  lastReset :: time

text \<open>\<open>NewLimits\<close>: the two last-sent instants keep Go's zero value; \<open>now\<close> is \<open>time.Now()\<close>.\<close>

definition NewLimits :: "LimitsConfig \<Rightarrow> time \<Rightarrow> Limits" where
  "NewLimits cfg now =
     \<lparr>config = cfg, connectionCount = 0, messageCount = 0, searchCount = 0,
      lastConnection = 0, lastMessage = 0, consecutiveCount = 0, lastReset = now\<rparr>"

text \<open>
  The checks return Go's pair \<open>(bool, string)\<close>. The argument \<open>durs\<close> stands for the
  rendering \<open>%s\<close> of \<open>remaining.Round(time.Second)\<close>, which is code of Go's package time;
  \<open>now\<close> is the instant \<open>time.Since\<close> reads.
\<close>

definition CanSendConnection :: "(duration \<Rightarrow> string) \<Rightarrow> time \<Rightarrow> Limits \<Rightarrow> bool \<times> string" where
  "CanSendConnection durs now l =
     (if connectionCount l \<ge> DailyConnections (config l) then
        (False, ''daily connection limit reached ('' @ fmt_d (connectionCount l) @ ''/'' @
                fmt_d (DailyConnections (config l)) @ '')'')
      else if \<not> IsZero (lastConnection l) \<and>
              Since now (lastConnection l) < ConnectionCooldown (config l) then
        (False, ''connection cooldown active (wait '' @
                durs (wrap64 (ConnectionCooldown (config l) - Since now (lastConnection l))) @ '')'')
      else if consecutiveCount l \<ge> MaxConsecutiveActions (config l) then
        (False, ''max consecutive actions reached ('' @
                fmt_d (MaxConsecutiveActions (config l)) @ ''), take a break'')
      else (True, ''ok''))"

definition CanSendMessage :: "(duration \<Rightarrow> string) \<Rightarrow> time \<Rightarrow> Limits \<Rightarrow> bool \<times> string" where
  "CanSendMessage durs now l =
     (if messageCount l \<ge> DailyMessages (config l) then
        (False, ''daily message limit reached ('' @ fmt_d (messageCount l) @ ''/'' @
                fmt_d (DailyMessages (config l)) @ '')'')
      else if \<not> IsZero (lastMessage l) \<and>
              Since now (lastMessage l) < MessageCooldown (config l) then
        (False, ''message cooldown active (wait '' @
                durs (wrap64 (MessageCooldown (config l) - Since now (lastMessage l))) @ '')'')
      else (True, ''ok''))"

definition CanSearch :: "Limits \<Rightarrow> bool \<times> string" where
  "CanSearch l =
     (if searchCount l \<ge> DailySearches (config l) then
        (False, ''daily search limit reached ('' @ fmt_d (searchCount l) @ ''/'' @
                fmt_d (DailySearches (config l)) @ '')'')
      else (True, ''ok''))"

definition RecordConnection :: "time \<Rightarrow> Limits \<Rightarrow> Limits" where
  "RecordConnection now l =
     l\<lparr>connectionCount := wrap64 (connectionCount l + 1),
       lastConnection := now,
       consecutiveCount := wrap64 (consecutiveCount l + 1)\<rparr>"

definition RecordMessage :: "time \<Rightarrow> Limits \<Rightarrow> Limits" where
  "RecordMessage now l =
     l\<lparr>messageCount := wrap64 (messageCount l + 1), lastMessage := now\<rparr>"

definition RecordSearch :: "Limits \<Rightarrow> Limits" where
  "RecordSearch l = l\<lparr>searchCount := wrap64 (searchCount l + 1)\<rparr>"

definition ResetConsecutiveCount :: "Limits \<Rightarrow> Limits" where
  "ResetConsecutiveCount l = l\<lparr>consecutiveCount := 0\<rparr>"

definition ResetDaily :: "time \<Rightarrow> Limits \<Rightarrow> Limits" where
  "ResetDaily now l =
     l\<lparr>connectionCount := 0, messageCount := 0, searchCount := 0,
       consecutiveCount := 0, lastReset := now\<rparr>"

definition GetConnectionCount :: "Limits \<Rightarrow> int" where
  "GetConnectionCount l = connectionCount l"

definition GetMessageCount :: "Limits \<Rightarrow> int" where
  "GetMessageCount l = messageCount l"

definition GetSearchCount :: "Limits \<Rightarrow> int" where
  "GetSearchCount l = searchCount l"

definition GetRemainingConnections :: "Limits \<Rightarrow> int" where
  "GetRemainingConnections l =
     (let remaining = wrap64 (DailyConnections (config l) - connectionCount l) in
      if remaining < 0 then 0 else remaining)"

definition GetRemainingMessages :: "Limits \<Rightarrow> int" where
  "GetRemainingMessages l =
     (let remaining = wrap64 (DailyMessages (config l) - messageCount l) in
      if remaining < 0 then 0 else remaining)"


text \<open>
  \<open>ShouldResetDaily\<close> reads \<open>Day()\<close> of two instants. \<open>Day\<close> is code of Go's package time:
  the civil date of the instant in its location, by the computation of \<open>absDate\<close> (400-,
  100-, 4- and 1-year cycles counted from January 1 of year 1, then the month from the day
  of the year). The argument \<open>zone\<close> gives the location's offset from UTC, in seconds, at
  an instant (zone data is not part of the program).
\<close>

definition daysBefore :: "int list" where
  "daysBefore = [0, 31, 59, 90, 120, 151, 181, 212, 243, 273, 304, 334, 365]"

definition isLeap :: "int \<Rightarrow> bool" where
  "isLeap year = (year mod 4 = 0 \<and> (year mod 100 \<noteq> 0 \<or> year mod 400 = 0))"

definition absDate :: "int \<Rightarrow> int \<times> int \<times> int" where
  "absDate days =
     (let n400 = days div 146097;
          d1 = days - 146097 * n400;
          q100 = d1 div 36524;
          n100 = q100 - q100 div 4;
          d2 = d1 - 36524 * n100;
          n4 = d2 div 1461;
          d3 = d2 - 1461 * n4;
          q1 = d3 div 365;
          n1 = q1 - q1 div 4;
          yday = d3 - 365 * n1;
          year = 400 * n400 + 100 * n100 + 4 * n4 + n1 + 1
      in if isLeap year \<and> yday = 59 then (year, 2, 29)
         else
           let day = (if isLeap year \<and> yday > 59 then yday - 1 else yday);
               month = day div 31;
               end' = daysBefore ! nat (month + 1)
           in if day \<ge> end' then (year, month + 2, day - end' + 1)
              else (year, month + 1, day - daysBefore ! nat month + 1))"

definition Date :: "(time \<Rightarrow> int) \<Rightarrow> time \<Rightarrow> int \<times> int \<times> int" where
  "Date zone t = absDate ((t div Second + zone t) div 86400)"

definition Day :: "(time \<Rightarrow> int) \<Rightarrow> time \<Rightarrow> int" where
  "Day zone t = snd (snd (Date zone t))"

definition UTC :: "time \<Rightarrow> int" where
  "UTC t = 0"

definition ShouldResetDaily :: "(time \<Rightarrow> int) \<Rightarrow> time \<Rightarrow> Limits \<Rightarrow> bool" where
  "ShouldResetDaily zone now l =
     (let lastResetDay = Day zone (lastReset l);
          currentDay = Day zone now
      in lastResetDay \<noteq> currentDay)"

text \<open>The defaults that the configuration loader sets for the \<open>limits\<close> keys.\<close>

definition DefaultLimitsConfig :: LimitsConfig where
  "DefaultLimitsConfig =
     \<lparr>DailyConnections = 50, DailyMessages = 20, DailySearches = 100,
      ConnectionCooldown = 5 * Minute, MessageCooldown = 10 * Minute,
      MaxConsecutiveActions = 5\<rparr>"

text \<open>
  A rendering of durations for the examples below: whole seconds. Go renders the same
  duration as \<open>5m0s\<close>; no property below depends on the rendering.
\<close>

definition whole_seconds :: "duration \<Rightarrow> string" where
  "whole_seconds d = fmt_d (d div Second) @ ''s''"

subsection \<open>Runs of the limiter\<close>

text \<open>A number of \<open>RecordConnection\<close> calls in a row, at the given instants.\<close>

fun RecordConnections :: "time list \<Rightarrow> Limits \<Rightarrow> Limits" where
  "RecordConnections [] l = l"
| "RecordConnections (t # ts) l = RecordConnections ts (RecordConnection t l)"

text \<open>
  The methods of \<open>Limits\<close> as operations on its fields: \<open>exec op now l\<close> is the value of the
  fields after the call \<open>op\<close> made at the instant \<open>now\<close>. A method whose body assigns no
  field returns the fields as they are.
\<close>

datatype LimitsOp =
    OpCanSendConnection | OpCanSendMessage | OpCanSearch
  | OpRecordConnection | OpRecordMessage | OpRecordSearch
  | OpResetConsecutiveCount | OpResetDaily | OpShouldResetDaily
  | OpGetConnectionCount | OpGetMessageCount | OpGetSearchCount
  | OpGetRemainingConnections | OpGetRemainingMessages
  | OpWaitForConnectionCooldown | OpWaitForMessageCooldown | OpGetStats

fun exec :: "LimitsOp \<Rightarrow> time \<Rightarrow> Limits \<Rightarrow> Limits" where
  "exec OpRecordConnection now l = RecordConnection now l"
| "exec OpRecordMessage now l = RecordMessage now l"
| "exec OpRecordSearch now l = RecordSearch l"
| "exec OpResetConsecutiveCount now l = ResetConsecutiveCount l"
| "exec OpResetDaily now l = ResetDaily now l"
| "exec _ now l = l"

fun run :: "(LimitsOp \<times> time) list \<Rightarrow> Limits \<Rightarrow> Limits" where
  "run [] l = l"
| "run ((op, t) # ops) l = run ops (exec op t l)"

fun is_reset :: "LimitsOp \<Rightarrow> bool" where
  "is_reset OpResetDaily = True"
| "is_reset OpResetConsecutiveCount = True"
| "is_reset _ = False"

fun is_record :: "LimitsOp \<Rightarrow> bool" where
  "is_record OpRecordConnection = True"
| "is_record OpRecordMessage = True"
| "is_record OpRecordSearch = True"
| "is_record _ = False"

subsection \<open>The gates, in the words of the specification\<close>

text \<open>
  A gate is a pair of a condition that denies the action and the reason reported for it.
  \<open>first_failing_gate\<close> reports the first gate of a list whose condition holds, and
  permission when none does.
\<close>

definition first_failing_gate :: "(bool \<times> string) list \<Rightarrow> bool \<times> string" where
  "first_failing_gate gates =
     (case find fst gates of Some g \<Rightarrow> (False, snd g) | None \<Rightarrow> (True, ''ok''))"

definition daily_quota_exhausted :: "int \<Rightarrow> int \<Rightarrow> bool" where
  "daily_quota_exhausted count cap = (count \<ge> cap)"

definition cooldown_not_elapsed :: "time \<Rightarrow> time \<Rightarrow> duration \<Rightarrow> bool" where
  "cooldown_not_elapsed now last_sent cooldown =
     (\<not> IsZero last_sent \<and> Since now last_sent < cooldown)"

definition consecutive_ceiling_reached :: "Limits \<Rightarrow> bool" where
  "consecutive_ceiling_reached l = (consecutiveCount l \<ge> MaxConsecutiveActions (config l))"

section \<open>Search results: \<open>FilterConnectable\<close> and \<open>DeduplicateProfiles\<close>\<close>

record ProfileResult =
  ProfileURL :: string
  Name :: string
  Headline :: string
  Location :: string
  ImageURL :: string
  IsConnected :: bool
  ConnectionDegree :: string

text \<open>The loop of \<open>FilterConnectable\<close>, with the slice \<open>connectable\<close> it appends to.\<close>

fun FilterConnectable_loop :: "ProfileResult list \<Rightarrow> ProfileResult list \<Rightarrow> ProfileResult list" where
  "FilterConnectable_loop [] connectable = connectable"
| "FilterConnectable_loop (profile # profiles) connectable =
     FilterConnectable_loop profiles
       (if \<not> IsConnected profile then connectable @ [profile] else connectable)"

definition FilterConnectable :: "ProfileResult list \<Rightarrow> ProfileResult list" where
  "FilterConnectable profiles = FilterConnectable_loop profiles []"

text \<open>
  The loop of \<open>DeduplicateProfiles\<close>, with the map \<open>seen\<close> and the slice \<open>unique\<close>. Reading
  a \<open>map[string]bool\<close> at a missing key yields \<open>false\<close>.
\<close>

definition seen_at :: "(string \<rightharpoonup> bool) \<Rightarrow> string \<Rightarrow> bool" where
  "seen_at seen url = (case seen url of None \<Rightarrow> False | Some b \<Rightarrow> b)"

fun DeduplicateProfiles_loop ::
  "ProfileResult list \<Rightarrow> (string \<rightharpoonup> bool) \<Rightarrow> ProfileResult list \<Rightarrow> ProfileResult list" where
  "DeduplicateProfiles_loop [] seen unique = unique"
| "DeduplicateProfiles_loop (profile # profiles) seen unique =
     (if \<not> seen_at seen (ProfileURL profile)
      then DeduplicateProfiles_loop profiles (seen(ProfileURL profile \<mapsto> True)) (unique @ [profile])
      else DeduplicateProfiles_loop profiles seen unique)"

definition DeduplicateProfiles :: "ProfileResult list \<Rightarrow> ProfileResult list" where
  "DeduplicateProfiles profiles = DeduplicateProfiles_loop profiles Map.empty []"

text \<open>
  The specification's reading of deduplication: keep an element exactly when no earlier
  element has its \<open>ProfileURL\<close>.
\<close>

fun first_occurrences :: "ProfileResult list \<Rightarrow> ProfileResult list" where
  "first_occurrences [] = []"
| "first_occurrences (p # ps) =
     p # first_occurrences (filter (\<lambda>q. ProfileURL q \<noteq> ProfileURL p) ps)"

section \<open>Checkpoint detection\<close>

datatype CheckpointType =
    CheckpointNone | CheckpointCAPTCHA | Checkpoint2FA | CheckpointVerification
  | CheckpointRestricted | CheckpointUnknown

text \<open>
  What the detector reads of a page. \<open>Element p selector\<close> is the result of the element
  query: \<open>None\<close> when the query returns an error (no such element within the timeout).
  Of an element the detector reads \<open>Visible()\<close> and \<open>Text()\<close>, each with its error
  dropped, so a failed read is the zero value (\<open>False\<close>, the empty string). \<open>PageURL\<close>
  is the URL of \<open>MustInfo()\<close>, which panics when the page information cannot be read:
  \<open>None\<close>.
\<close>

record element =
  Visible :: bool
  Text :: string

record page =
  Element :: "string \<Rightarrow> element option"
  PageURL :: "string option"

text \<open>\<open>contains\<close> and \<open>findSubstring\<close> of package auth, on byte strings.\<close>

function findSubstring_from :: "int \<Rightarrow> string \<Rightarrow> string \<Rightarrow> bool" where
  "findSubstring_from i s substr =
     (if 0 \<le> i \<and> i \<le> int (length s) - int (length substr) then
        (if take (length substr) (drop (nat i) s) = substr then True
         else findSubstring_from (i + 1) s substr)
      else False)"
  by pat_completeness auto
termination
  by (relation "measure (\<lambda>(i, s, substr). nat (int (length s) - int (length substr) + 1 - i))") auto

definition findSubstring :: "string \<Rightarrow> string \<Rightarrow> bool" where
  "findSubstring s substr = findSubstring_from 0 s substr"

definition contains :: "string \<Rightarrow> string \<Rightarrow> bool" where
  "contains s substr = (length s \<ge> length substr \<and> findSubstring s substr)"

text \<open>
  The loop shared by \<open>hasCAPTCHA\<close>, \<open>has2FA\<close> and \<open>hasVerificationChallenge\<close>: the first
  selector whose element is found and reported visible ends it with \<open>true\<close>.
\<close>

fun any_visible :: "page \<Rightarrow> string list \<Rightarrow> bool" where
  "any_visible p [] = False"
| "any_visible p (selector # selectors) =
     (case Element p selector of
        Some el \<Rightarrow> if Visible el then True else any_visible p selectors
      | None \<Rightarrow> any_visible p selectors)"

text \<open>
  The loop of \<open>hasAccountRestriction\<close> and \<open>hasUnusualActivity\<close>: the first selector whose
  element is found ends it with \<open>true\<close>; visibility is not read.
\<close>

fun any_present :: "page \<Rightarrow> string list \<Rightarrow> bool" where
  "any_present p [] = False"
| "any_present p (selector # selectors) =
     (case Element p selector of
        Some el \<Rightarrow> True
      | None \<Rightarrow> any_present p selectors)"

fun contains_any :: "string \<Rightarrow> string list \<Rightarrow> bool" where
  "contains_any text [] = False"
| "contains_any text (keyword # keywords) =
     (if contains text keyword then True else contains_any text keywords)"

text \<open>The selectors of the five predicates; the character 39 is the single quote.\<close>

definition captcha_selectors :: "string list" where
  "captcha_selectors =
     [''#captcha-internal'', ''.g-recaptcha'',
      ''[data-test-id='' @ [char_of (39::nat)] @ ''captcha'' @ [char_of (39::nat)] @ '']'',
      ''iframe[src*='' @ [char_of (39::nat)] @ ''recaptcha'' @ [char_of (39::nat)] @ '']'',
      ''iframe[src*='' @ [char_of (39::nat)] @ ''captcha'' @ [char_of (39::nat)] @ '']'']"

definition twofa_selectors :: "string list" where
  "twofa_selectors =
     [''input[name='' @ [char_of (39::nat)] @ ''pin'' @ [char_of (39::nat)] @ '']'',
      ''input[id='' @ [char_of (39::nat)] @ ''pin'' @ [char_of (39::nat)] @ '']'',
      ''[data-test-id='' @ [char_of (39::nat)] @ ''2fa-input'' @ [char_of (39::nat)] @ '']'',
      ''.two-step-verification'']"

definition verification_selectors :: "string list" where
  "verification_selectors =
     [''.challenge-dialog'',
      ''[data-test-id='' @ [char_of (39::nat)] @ ''verification-challenge'' @ [char_of (39::nat)] @ '']'',
      ''.security-challenge'', ''#email-pin-challenge'']"

definition verificationPaths :: "string list" where
  "verificationPaths = [''/checkpoint/challenge'', ''/checkpoint/lg/'', ''/challenge/'']"

definition restriction_selectors :: "string list" where
  "restriction_selectors =
     [''.account-restricted'',
      ''[data-test-id='' @ [char_of (39::nat)] @ ''account-restricted'' @ [char_of (39::nat)] @ '']'',
      ''.restricted-account-notice'']"

definition restrictionKeywords :: "string list" where
  "restrictionKeywords =
     [''account has been restricted'', ''temporarily restricted'', ''violated our terms'',
      ''suspended'']"

definition unusual_selectors :: "string list" where
  "unusual_selectors =
     [''.unusual-activity'',
      ''[data-test-id='' @ [char_of (39::nat)] @ ''unusual-activity'' @ [char_of (39::nat)] @ '']'']"

definition hasCAPTCHA :: "page \<Rightarrow> bool" where
  "hasCAPTCHA p = any_visible p captcha_selectors"

definition has2FA :: "page \<Rightarrow> bool" where
  "has2FA p = any_visible p twofa_selectors"

text \<open>\<open>None\<close> is the panic of \<open>MustInfo\<close>, reached only when no selector ended the loop.\<close>

definition hasVerificationChallenge :: "page \<Rightarrow> bool option" where
  "hasVerificationChallenge p =
     (if any_visible p verification_selectors then Some True
      else case PageURL p of
             None \<Rightarrow> None
           | Some url \<Rightarrow> Some (contains_any url verificationPaths))"

definition hasAccountRestriction :: "page \<Rightarrow> bool" where
  "hasAccountRestriction p =
     (if any_present p restriction_selectors then True
      else case Element p ''body'' of
             Some bodyText \<Rightarrow> contains_any (Text bodyText) restrictionKeywords
           | None \<Rightarrow> False)"

definition hasUnusualActivity :: "page \<Rightarrow> bool" where
  "hasUnusualActivity p =
     (if any_present p unusual_selectors then True
      else case Element p ''body'' of
             Some bodyText \<Rightarrow>
               contains (Text bodyText) ''unusual activity'' \<or>
               contains (Text bodyText) ''verify your identity''
           | None \<Rightarrow> False)"

definition Detect :: "page \<Rightarrow> (CheckpointType \<times> string) option" where
  "Detect p =
     (if hasCAPTCHA p then
        Some (CheckpointCAPTCHA, ''CAPTCHA challenge detected - manual intervention required'')
      else if has2FA p then
        Some (Checkpoint2FA, ''Two-factor authentication required'')
      else case hasVerificationChallenge p of
        None \<Rightarrow> None
      | Some True \<Rightarrow> Some (CheckpointVerification, ''Account verification required'')
      | Some False \<Rightarrow>
          if hasAccountRestriction p then
            Some (CheckpointRestricted, ''Account has been restricted'')
          else if hasUnusualActivity p then
            Some (CheckpointVerification, ''Unusual activity detected by LinkedIn'')
          else Some (CheckpointNone, []))"

text \<open>The marker selectors of all five predicates.\<close>

definition marker_selectors :: "string list" where
  "marker_selectors =
     captcha_selectors @ twofa_selectors @ verification_selectors @
     restriction_selectors @ unusual_selectors"

section \<open>The random source\<close>

text \<open>
  \<open>randomInt\<close> draws from \<open>crypto/rand\<close>. One call of \<open>rand.Int(rand.Reader, max)\<close> is
  modelled by an \<open>entropy\<close> value: \<open>None\<close> when the reader returns an error, \<open>Some k\<close>
  when it delivers, the value drawn being \<open>k mod max\<close>, which lies in \<open>[0, max)\<close> as
  \<open>rand.Int\<close> promises. \<open>rand.Int\<close> panics when \<open>max \<le> 0\<close>.
\<close>

type_synonym entropy = "nat option"

datatype error = ErrMinGreaterThanMax | ErrRandomSource | ErrKeyboard

text \<open>
  Go's result pair \<open>(int, error)\<close> is a pair of the value and an optional error. The
  outer \<open>option\<close> is \<open>None\<close> when the call panics.
\<close>

definition randomInt :: "entropy \<Rightarrow> int \<Rightarrow> int \<Rightarrow> (int \<times> error option) option" where
  "randomInt e mn mx =
     (if mn > mx then Some (0, Some ErrMinGreaterThanMax)
      else if mn = mx then Some (mn, None)
      else
        let diff = wrap64 (mx - mn + 1) in
        if diff \<le> 0 then None
        else case e of
               None \<Rightarrow> Some (0, Some ErrRandomSource)
             | Some k \<Rightarrow> Some (wrap64 (int k mod diff + mn), None))"

text \<open>
  \<open>float64\<close> is modelled by \<open>real\<close>: rounding, infinities and NaN are not modelled, and a
  computation of the source that divides zero by zero is a result of its own below.
  \<open>randomFloat\<close> drops the error of \<open>randomInt\<close> and uses the value beside it.
\<close>

definition randomFloat :: "entropy \<Rightarrow> real \<Rightarrow> real \<Rightarrow> real option" where
  "randomFloat e mn mx =
     (case randomInt e 0 10000 of
        None \<Rightarrow> None
      | Some (n, _) \<Rightarrow>
          let normalized = real_of_int n / 10000
          in Some (mn + normalized * (mx - mn)))"

text \<open>The conversion \<open>time.Duration(x)\<close> of a float: the fraction is discarded.\<close>

definition Duration_of_float :: "real \<Rightarrow> duration" where
  "Duration_of_float x = (if x \<ge> 0 then \<lfloor>x\<rfloor> else \<lceil>x\<rceil>)"

text \<open>Go's integer division truncates towards zero.\<close>

definition quo :: "int \<Rightarrow> int \<Rightarrow> int" where
  "quo a b = sgn a * sgn b * (\<bar>a\<bar> div \<bar>b\<bar>)"

definition Milliseconds :: "duration \<Rightarrow> int" where
  "Milliseconds d = quo d 1000000"

section \<open>Timing\<close>

record TimingConfig =
  MinActionDelay :: duration
  MaxActionDelay :: duration
  PageLoadTimeout :: duration
  FatigueMultiplier :: real
  FatigueAfter :: int

record Timing =
  timing_config :: TimingConfig
  actionCount :: int
  fatigueActive :: bool

definition NewTiming :: "TimingConfig \<Rightarrow> Timing" where
  "NewTiming cfg = \<lparr>timing_config = cfg, actionCount = 0, fatigueActive = False\<rparr>"

text \<open>The defaults that the configuration loader sets for the \<open>stealth.timing\<close> keys.\<close>

definition DefaultTimingConfig :: TimingConfig where
  "DefaultTimingConfig =
     \<lparr>MinActionDelay = 500 * Millisecond, MaxActionDelay = 2 * Second,
      PageLoadTimeout = 30 * Second, FatigueMultiplier = 3 / 2, FatigueAfter = 20\<rparr>"

text \<open>
  \<open>logNormalDelay\<close> draws two uniform variates and computes, in \<open>float64\<close>, a log-normal
  value clamped to \<open>[minMs, maxMs]\<close>, with logarithms, square roots, a cosine and an
  exponential, some of them of infinite arguments (the logarithm of a variate that is 0).
  That arithmetic is not modelled: the argument \<open>kf\<close> stands for it, the function from
  \<open>minMs\<close>, \<open>maxMs\<close> and the two variates to \<open>time.Duration(value)\<close>. The method reads no
  field of its receiver.
\<close>

type_synonym lognormal_kernel = "int \<Rightarrow> int \<Rightarrow> real \<Rightarrow> real \<Rightarrow> int"

definition logNormalDelay ::
  "lognormal_kernel \<Rightarrow> entropy \<Rightarrow> entropy \<Rightarrow> duration \<Rightarrow> duration \<Rightarrow> duration option" where
  "logNormalDelay kf e1 e2 mn mx =
     (let minMs = Milliseconds mn; maxMs = Milliseconds mx in
      case randomFloat e1 0 1 of
        None \<Rightarrow> None
      | Some u1 \<Rightarrow>
         (case randomFloat e2 0 1 of
            None \<Rightarrow> None
          | Some u2 \<Rightarrow> Some (wrap64 (kf minMs maxMs u1 u2 * Millisecond))))"

text \<open>
  \<open>ActionDelay\<close> returns the delay and changes the receiver; \<open>None\<close> is a panic (there is
  none, as shown below).
\<close>

definition ActionDelay ::
  "lognormal_kernel \<Rightarrow> entropy \<Rightarrow> entropy \<Rightarrow> Timing \<Rightarrow> (duration \<times> Timing) option" where
  "ActionDelay kf e1 e2 t =
     (case logNormalDelay kf e1 e2 (MinActionDelay (timing_config t))
             (MaxActionDelay (timing_config t)) of
        None \<Rightarrow> None
      | Some delay \<Rightarrow>
          if actionCount t \<ge> FatigueAfter (timing_config t) then
            Some (Duration_of_float (real_of_int delay * FatigueMultiplier (timing_config t)),
                  t\<lparr>fatigueActive := True, actionCount := wrap64 (actionCount t + 1)\<rparr>)
          else Some (delay, t\<lparr>actionCount := wrap64 (actionCount t + 1)\<rparr>))"

definition PageLoadDelay ::
  "lognormal_kernel \<Rightarrow> entropy \<Rightarrow> entropy \<Rightarrow> Timing \<Rightarrow> duration option" where
  "PageLoadDelay kf e1 e2 t = logNormalDelay kf e1 e2 (1 * Second) (3 * Second)"

definition ShortPause ::
  "lognormal_kernel \<Rightarrow> entropy \<Rightarrow> entropy \<Rightarrow> Timing \<Rightarrow> duration option" where
  "ShortPause kf e1 e2 t =
     logNormalDelay kf e1 e2 (200 * Millisecond) (800 * Millisecond)"

definition MediumPause ::
  "lognormal_kernel \<Rightarrow> entropy \<Rightarrow> entropy \<Rightarrow> Timing \<Rightarrow> duration option" where
  "MediumPause kf e1 e2 t = logNormalDelay kf e1 e2 (1 * Second) (3 * Second)"

definition LongPause ::
  "lognormal_kernel \<Rightarrow> entropy \<Rightarrow> entropy \<Rightarrow> Timing \<Rightarrow> duration option" where
  "LongPause kf e1 e2 t = logNormalDelay kf e1 e2 (3 * Second) (8 * Second)"

definition ReadingTime :: "entropy \<Rightarrow> Timing \<Rightarrow> int \<Rightarrow> duration option" where
  "ReadingTime e t wordCount =
     (let wordsPerSecond = 35 / 10;
          baseTime = real_of_int wordCount / wordsPerSecond
      in case randomFloat e (8 / 10) (12 / 10) of
           None \<Rightarrow> None
         | Some variance \<Rightarrow>
             let seconds = baseTime * variance;
                 seconds = (if seconds < 2 then 2 else seconds);
                 seconds = (if seconds > 30 then 30 else seconds)
             in Some (Duration_of_float (seconds * real_of_int Second)))"

definition ThinkingDelay ::
  "lognormal_kernel \<Rightarrow> entropy \<Rightarrow> entropy \<Rightarrow> Timing \<Rightarrow> duration option" where
  "ThinkingDelay kf e1 e2 t = logNormalDelay kf e1 e2 (1 * Second) (5 * Second)"

definition ResetFatigue :: "Timing \<Rightarrow> Timing" where
  "ResetFatigue t = t\<lparr>actionCount := 0, fatigueActive := False\<rparr>"

definition IncrementAction :: "Timing \<Rightarrow> Timing" where
  "IncrementAction t = t\<lparr>actionCount := wrap64 (actionCount t + 1)\<rparr>"

text \<open>
  The specification's reading of fatigue: a delay multiplied by the configured multiplier.
\<close>

definition fatigue_scaled :: "TimingConfig \<Rightarrow> duration \<Rightarrow> duration" where
  "fatigue_scaled cfg delay = Duration_of_float (real_of_int delay * FatigueMultiplier cfg)"

text \<open>
  A kf for the examples: the value of the log-normal computation when the clamp to the
  lower bound applies, as it does for the variates \<open>u1 = 0\<close> and \<open>u2 = 1/2\<close> (the logarithm
  of 0 is minus infinity, the cosine of pi is -1, the exponential is 0, below \<open>minMs\<close>).
\<close>

definition lower_clamp :: lognormal_kernel where
  "lower_clamp minMs maxMs u1 u2 = minMs"

section \<open>Pointer paths\<close>

record Point =
  X :: real
  Y :: real

record MouseConfig =
  BezierSteps :: int
  MinSteps :: int
  MaxSteps :: int
  Overshoot :: bool
  OvershootSpread :: int
  JitterRadius :: int

definition cubicBezier :: "real \<Rightarrow> Point \<Rightarrow> Point \<Rightarrow> Point \<Rightarrow> Point \<Rightarrow> Point" where
  "cubicBezier t p0 p1 p2 p3 =
     (let u = 1 - t;
          tt = t * t;
          uu = u * u;
          uuu = uu * u;
          ttt = tt * t
      in \<lparr>X = uuu * X p0 + 3 * uu * t * X p1 + 3 * u * tt * X p2 + ttt * X p3,
          Y = uuu * Y p0 + 3 * uu * t * Y p1 + 3 * u * tt * Y p2 + ttt * Y p3\<rparr>)"

text \<open>
  The result of \<open>generateBezierPath\<close>: the slice of points; a panic (of \<open>rand.Int\<close>, or of
  \<open>make\<close> with a negative length); or, for a single step, a point whose parameter is
  \<open>0/0\<close>, not a number in \<open>float64\<close>.
\<close>

datatype path = Path "Point list" | PathPanic | PathNaN

text \<open>
  The five draws of \<open>generateBezierPath\<close>, in the order of the source: the number of steps
  and the four offsets of the control points.
\<close>

definition generateBezierPath ::
  "MouseConfig \<Rightarrow> entropy \<Rightarrow> entropy \<Rightarrow> entropy \<Rightarrow> entropy \<Rightarrow> entropy \<Rightarrow> Point \<Rightarrow> Point \<Rightarrow> path" where
  "generateBezierPath cfg e0 e1 e2 e3 e4 start end' =
     (case randomInt e0 (MinSteps cfg) (MaxSteps cfg) of
        None \<Rightarrow> PathPanic
      | Some (steps, _) \<Rightarrow>
         (let distance = sqrt ((X end' - X start)\<^sup>2 + (Y end' - Y start)\<^sup>2) in
          case (randomFloat e1 (- distance * (2 / 10)) (distance * (2 / 10)),
                randomFloat e2 (- distance * (2 / 10)) (distance * (2 / 10)),
                randomFloat e3 (- distance * (2 / 10)) (distance * (2 / 10)),
                randomFloat e4 (- distance * (2 / 10)) (distance * (2 / 10))) of
            (Some r1, Some r2, Some r3, Some r4) \<Rightarrow>
              (let controlPoint1 =
                     \<lparr>X = X start + (X end' - X start) * (33 / 100) + r1,
                      Y = Y start + (Y end' - Y start) * (33 / 100) + r2\<rparr>;
                   controlPoint2 =
                     \<lparr>X = X start + (X end' - X start) * (66 / 100) + r3,
                      Y = Y start + (Y end' - Y start) * (66 / 100) + r4\<rparr>
               in if steps < 0 then PathPanic
                  else if steps = 1 then PathNaN
                  else Path (map (\<lambda>i. cubicBezier (real i / real_of_int (steps - 1))
                                         start controlPoint1 controlPoint2 end')
                               [0 ..< nat steps]))
          | _ \<Rightarrow> PathPanic))"

section \<open>Typing\<close>

text \<open>
  A text is the sequence of runes that \<open>range\<close> yields for the string; a rune is its code
  point. The index \<open>i\<close> of \<open>range\<close> is the byte offset of the rune, which is 0 for the
  first rune of the string and positive for every other.
\<close>

type_synonym rune = nat





















text \<open>The loop of \<open>splitIntoWords\<close>, with \<open>words\<close> and \<open>currentWord\<close>.\<close>

definition is_separator :: "rune \<Rightarrow> bool" where
  "is_separator char = (char = 32 \<or> char = 10 \<or> char = 9)"





subsection \<open>What the typed keys amount to\<close>





fun collapse_whitespace_from :: "bool \<Rightarrow> bool \<Rightarrow> rune list \<Rightarrow> rune list" where
  "collapse_whitespace_from started gap [] = []"
| "collapse_whitespace_from started gap (c # cs) =
     (if is_separator c then collapse_whitespace_from started True cs
      else (if started \<and> gap then [32] else []) @ c # collapse_whitespace_from True False cs)"


section \<open>Examples and notions for the proofs\<close>

text \<open>Profiles for the examples, and a change of a profile that keeps its URL and its flag.\<close>

definition example_profile :: "string \<Rightarrow> string \<Rightarrow> bool \<Rightarrow> ProfileResult" where
  "example_profile url name isConnected =
     \<lparr>ProfileURL = url, Name = name, Headline = [], Location = [], ImageURL = [],
      IsConnected = isConnected, ConnectionDegree = []\<rparr>"

definition clear_name :: "ProfileResult \<Rightarrow> ProfileResult" where
  "clear_name p = p\<lparr>Name := []\<rparr>"

text \<open>
  Pages for the examples, all at the URL of the feed. On \<open>page_text_only\<close> no marker element
  is found and the body, not reported visible, carries a restriction keyword. On
  \<open>page_hidden_markers\<close> every marker element of the five predicates is found and none is
  reported visible. On \<open>page_hidden_challenges\<close> the marker elements of the CAPTCHA, of the
  second factor and of the verification challenge are found and not reported visible,
  no other marker is found, and the body carries no keyword.
\<close>

definition hidden_element :: element where
  "hidden_element = \<lparr>Visible = False, Text = []\<rparr>"

definition feed_url :: string where
  "feed_url = ''https://www.linkedin.com/feed/''"

definition page_text_only :: page where
  "page_text_only =
     \<lparr>Element = (\<lambda>selector.
        if selector = ''body''
        then Some \<lparr>Visible = False, Text = ''Your account has been suspended''\<rparr>
        else None),
      PageURL = Some feed_url\<rparr>"

definition page_hidden_markers :: page where
  "page_hidden_markers =
     \<lparr>Element = (\<lambda>selector.
        if selector \<in> set marker_selectors then Some hidden_element else None),
      PageURL = Some feed_url\<rparr>"

definition page_hidden_challenges :: page where
  "page_hidden_challenges =
     \<lparr>Element = (\<lambda>selector.
        if selector \<in> set (captcha_selectors @ twofa_selectors @ verification_selectors)
        then Some hidden_element
        else if selector = ''body'' then Some \<lparr>Visible = True, Text = ''Welcome back''\<rparr>
        else None),
      PageURL = Some feed_url\<rparr>"

text \<open>
  A controller for the examples: the default settings (fatigue after 20 actions, multiplier
  1.5) after 21 calls of \<open>ActionDelay\<close>.
\<close>

definition tired_timing :: Timing where
  "tired_timing = \<lparr>timing_config = DefaultTimingConfig, actionCount = 21, fatigueActive = True\<rparr>"

text \<open>The defaults that the configuration loader sets for the \<open>stealth.mouse_movement\<close> keys.\<close>

definition DefaultMouseConfig :: MouseConfig where
  "DefaultMouseConfig =
     \<lparr>BezierSteps = 100, MinSteps = 80, MaxSteps = 150, Overshoot = True,
      OvershootSpread = 10, JitterRadius = 3\<rparr>"









text \<open>The bound that a run of \<open>n\<close> calls keeps on the four counters of a fresh limiter.\<close>

definition counters_within :: "int \<Rightarrow> Limits \<Rightarrow> bool" where
  "counters_within n l =
     (0 \<le> connectionCount l \<and> connectionCount l \<le> n \<and>
      0 \<le> messageCount l \<and> messageCount l \<le> n \<and>
      0 \<le> searchCount l \<and> searchCount l \<le> n \<and>
      0 \<le> consecutiveCount l \<and> consecutiveCount l \<le> n)"

section \<open>Properties of the rate limiter\<close>

lemma wrap64_id: "min_int64 \<le> x \<Longrightarrow> x \<le> max_int64 \<Longrightarrow> wrap64 x = x"
  by (simp add: wrap64_def min_int64_def max_int64_def)

lemma RecordConnections_count:
  "0 \<le> connectionCount l \<Longrightarrow> connectionCount l + int (length ts) \<le> max_int64 \<Longrightarrow>
   connectionCount (RecordConnections ts l) = connectionCount l + int (length ts)"
proof (induction ts arbitrary: l)
  case Nil
  then show ?case by simp
next
  case (Cons t ts)
  have w: "wrap64 (connectionCount l + 1) = connectionCount l + 1"
    using Cons.prems by (intro wrap64_id) (simp_all add: min_int64_def)
  have "connectionCount (RecordConnections ts (RecordConnection t l)) =
        connectionCount (RecordConnection t l) + int (length ts)"
    using Cons.prems w by (intro Cons.IH) (simp_all add: RecordConnection_def)
  then show ?case using w by (simp add: RecordConnection_def)
qed

lemma RecordConnections_config: "config (RecordConnections ts l) = config l"
  by (induction ts arbitrary: l) (simp_all add: RecordConnection_def)

lemma RecordConnections_last:
  "ts \<noteq> [] \<Longrightarrow> lastConnection (RecordConnections ts l) = last ts"
  by (induction ts arbitrary: l) (auto simp: RecordConnection_def)

lemma fmt_d_50: "fmt_d 50 = ''50''"
  by (simp add: fmt_d_def digit_char_def)

text \<open>
  C1, as amended. With a daily connection cap of 50, after exactly 50 calls of
  \<open>RecordConnection\<close> on a fresh limiter, \<open>CanSendConnection\<close> returns
  \<open>(false, "daily connection limit reached (50/50)")\<close>, at every instant and for every
  other setting. After a following \<open>ResetDaily\<close>, \<open>CanSendConnection\<close> returns
  \<open>(true, "ok")\<close> exactly when the connection cooldown has elapsed since the last recorded
  connection (\<open>ResetDaily\<close> leaves \<open>lastConnection\<close> as it is) and the ceiling of
  consecutive actions is positive.
\<close>

theorem daily_cap_then_reset:
  assumes cap: "DailyConnections cfg = 50" and n: "length ts = 50"
  shows "CanSendConnection durs now (RecordConnections ts (NewLimits cfg t0)) =
           (False, ''daily connection limit reached (50/50)'') \<and>
         (CanSendConnection durs now' (ResetDaily r (RecordConnections ts (NewLimits cfg t0))) =
           (True, ''ok'')) =
         ((IsZero (last ts) \<or> ConnectionCooldown cfg \<le> Since now' (last ts)) \<and>
          0 < MaxConsecutiveActions cfg)"
proof -
  let ?l = "RecordConnections ts (NewLimits cfg t0)"
  have c: "connectionCount ?l = 50"
    using RecordConnections_count [of "NewLimits cfg t0" ts] n
    by (simp add: NewLimits_def max_int64_def)
  have g: "config ?l = cfg"
    by (simp add: RecordConnections_config NewLimits_def)
  have "ts \<noteq> []" using n by auto
  then have lc: "lastConnection ?l = last ts"
    by (rule RecordConnections_last)
  have 1: "CanSendConnection durs now ?l = (False, ''daily connection limit reached (50/50)'')"
    by (simp add: CanSendConnection_def c g cap fmt_d_50)
  have 2: "(CanSendConnection durs now' (ResetDaily r ?l) = (True, ''ok'')) =
         ((IsZero (last ts) \<or> ConnectionCooldown cfg \<le> Since now' (last ts)) \<and>
          0 < MaxConsecutiveActions cfg)"
    using cap by (auto simp: CanSendConnection_def ResetDaily_def g lc)
  from 1 2 show ?thesis by simp
qed

text \<open>
  The instance of C1 with the default limits: 50 connections recorded at one instant, the
  reset at that instant, and the check five minutes later, when it permits.
\<close>

theorem daily_cap_then_reset_witness:
  "DailyConnections DefaultLimitsConfig = 50 \<and>
   length (replicate 50 (63900000000 * Second)) = 50 \<and>
   CanSendConnection whole_seconds (63900000000 * Second)
     (RecordConnections (replicate 50 (63900000000 * Second))
        (NewLimits DefaultLimitsConfig (63900000000 * Second))) =
     (False, ''daily connection limit reached (50/50)'') \<and>
   CanSendConnection whole_seconds (63900000300 * Second)
     (ResetDaily (63900000000 * Second)
        (RecordConnections (replicate 50 (63900000000 * Second))
           (NewLimits DefaultLimitsConfig (63900000000 * Second)))) = (True, ''ok'')"
proof -
  have cap: "DailyConnections DefaultLimitsConfig = 50"
    by (simp add: DefaultLimitsConfig_def)
  have n: "length (replicate 50 (63900000000 * Second)) = 50"
    by simp
  have lst: "last (replicate 50 (63900000000 * Second)) = 63900000000 * Second"
    by (simp add: last_replicate)
  have el: "ConnectionCooldown DefaultLimitsConfig
              \<le> Since (63900000300 * Second) (63900000000 * Second)"
    by (simp add: DefaultLimitsConfig_def Since_def Sub_def Second_def Minute_def
        max_int64_def min_int64_def)
  have mx: "0 < MaxConsecutiveActions DefaultLimitsConfig"
    by (simp add: DefaultLimitsConfig_def)
  show ?thesis
    using daily_cap_then_reset [OF cap n, of whole_seconds "63900000000 * Second"
        "63900000000 * Second" "63900000300 * Second" "63900000000 * Second"] cap el mx
    by (simp only: lst n simp_thms)
qed

text \<open>
  C1 as stated fails: with the default limits (cooldown of five minutes), 50 connections
  recorded at an instant and \<open>ResetDaily\<close> called at that instant, \<open>CanSendConnection\<close>
  called immediately denies: the cooldown of the 50th connection has not elapsed.
\<close>

theorem reset_keeps_cooldown_counterexample:
  "fst (CanSendConnection whole_seconds (63900000000 * Second)
     (ResetDaily (63900000000 * Second)
        (RecordConnections (replicate 50 (63900000000 * Second))
           (NewLimits DefaultLimitsConfig (63900000000 * Second))))) = False"
  by (simp add: CanSendConnection_def ResetDaily_def RecordConnection_def NewLimits_def
      DefaultLimitsConfig_def Second_def Minute_def IsZero_def Since_def Sub_def wrap64_def
      max_int64_def min_int64_def numeral_eq_Suc)

text \<open>
  C4. For every state of the limiter, \<open>CanSendConnection\<close> reports the first failing gate
  in the order daily quota exhausted, cooldown not elapsed, ceiling of consecutive actions
  reached, and \<open>(true, "ok")\<close> when none fails; \<open>CanSendMessage\<close> checks the daily quota
  and then the cooldown only; \<open>CanSearch\<close> checks the daily quota only.
\<close>

theorem gates_in_order:
  "CanSendConnection durs now l =
     first_failing_gate
       [(daily_quota_exhausted (connectionCount l) (DailyConnections (config l)),
         ''daily connection limit reached ('' @ fmt_d (connectionCount l) @ ''/'' @
           fmt_d (DailyConnections (config l)) @ '')''),
        (cooldown_not_elapsed now (lastConnection l) (ConnectionCooldown (config l)),
         ''connection cooldown active (wait '' @
           durs (wrap64 (ConnectionCooldown (config l) - Since now (lastConnection l))) @ '')''),
        (consecutive_ceiling_reached l,
         ''max consecutive actions reached ('' @
           fmt_d (MaxConsecutiveActions (config l)) @ ''), take a break'')] \<and>
   CanSendMessage durs now l =
     first_failing_gate
       [(daily_quota_exhausted (messageCount l) (DailyMessages (config l)),
         ''daily message limit reached ('' @ fmt_d (messageCount l) @ ''/'' @
           fmt_d (DailyMessages (config l)) @ '')''),
        (cooldown_not_elapsed now (lastMessage l) (MessageCooldown (config l)),
         ''message cooldown active (wait '' @
           durs (wrap64 (MessageCooldown (config l) - Since now (lastMessage l))) @ '')'')] \<and>
   CanSearch l =
     first_failing_gate
       [(daily_quota_exhausted (searchCount l) (DailySearches (config l)),
         ''daily search limit reached ('' @ fmt_d (searchCount l) @ ''/'' @
           fmt_d (DailySearches (config l)) @ '')'')]"
  by (simp add: CanSendConnection_def CanSendMessage_def CanSearch_def first_failing_gate_def
      daily_quota_exhausted_def cooldown_not_elapsed_def consecutive_ceiling_reached_def)

text \<open>
  C5. \<open>ShouldResetDaily\<close> returns true exactly when the day of the month of the last reset
  differs from the day of the month of the current instant; so for two instants 31 days
  apart with the same day of the month it returns false.
\<close>

theorem reset_check_compares_day_of_month:
  "ShouldResetDaily zone now l = (Day zone (lastReset l) \<noteq> Day zone now) \<and>
   (now = lastReset l + 31 * 24 * 3600 * Second \<and> Day zone now = Day zone (lastReset l)
      \<longrightarrow> ShouldResetDaily zone now l = False)"
  by (auto simp: ShouldResetDaily_def Let_def)

text \<open>
  The instance of C5 for a reset at noon of January 15, 2024 (UTC) and a check 31 days
  later, at noon of February 15, 2024: no reset is asked for.
\<close>

theorem reset_check_compares_day_of_month_witness:
  "Date UTC (63840916800 * Second) = (2024, 1, 15) \<and>
   Date UTC (63840916800 * Second + 31 * 24 * 3600 * Second) = (2024, 2, 15) \<and>
   ShouldResetDaily UTC (63840916800 * Second + 31 * 24 * 3600 * Second)
     (NewLimits DefaultLimitsConfig (63840916800 * Second)) = False"
proof -
  have d1: "Date UTC (63840916800 * Second) = (2024, 1, 15)"
    by code_simp
  have d2: "Date UTC (63840916800 * Second + 31 * 24 * 3600 * Second) = (2024, 2, 15)"
    by code_simp
  have lr: "lastReset (NewLimits DefaultLimitsConfig (63840916800 * Second)) = 63840916800 * Second"
    by (simp add: NewLimits_def)
  have same: "Day UTC (63840916800 * Second + 31 * 24 * 3600 * Second) =
              Day UTC (lastReset (NewLimits DefaultLimitsConfig (63840916800 * Second)))"
    by (simp only: lr Day_def d1 d2 snd_conv)
  have "ShouldResetDaily UTC (63840916800 * Second + 31 * 24 * 3600 * Second)
     (NewLimits DefaultLimitsConfig (63840916800 * Second)) = False"
    using reset_check_compares_day_of_month [of UTC "63840916800 * Second + 31 * 24 * 3600 * Second"
        "NewLimits DefaultLimitsConfig (63840916800 * Second)"] same lr
    by simp
  with d1 d2 show ?thesis by simp
qed

lemma exec_counters_within:
  assumes "counters_within n l" and "0 \<le> n" and "n < max_int64"
  shows "counters_within (n + 1) (exec op t l)"
proof -
  have w: "\<And>x. 0 \<le> x \<Longrightarrow> x \<le> n \<Longrightarrow> wrap64 (x + 1) = x + 1"
    using assms(3) by (intro wrap64_id) (simp_all add: min_int64_def)
  show ?thesis
    using assms(1) w
    by (cases op)
       (simp_all add: counters_within_def RecordConnection_def RecordMessage_def RecordSearch_def
          ResetConsecutiveCount_def ResetDaily_def)
qed

lemma run_counters_within:
  "counters_within n l \<Longrightarrow> 0 \<le> n \<Longrightarrow> n + int (length ops) \<le> max_int64 \<Longrightarrow>
   counters_within (n + int (length ops)) (run ops l)"
proof (induction ops arbitrary: n l)
  case Nil
  then show ?case by simp
next
  case (Cons a ops)
  obtain op t where a: "a = (op, t)" by (cases a)
  have "counters_within (n + 1) (exec op t l)"
    using Cons.prems by (intro exec_counters_within) simp_all
  then have "counters_within (n + 1 + int (length ops)) (run ops (exec op t l))"
    using Cons.prems by (intro Cons.IH) simp_all
  then show ?case by (simp add: a algebra_simps)
qed

lemma fresh_run_counters:
  assumes "int (length ops) < max_int64"
  shows "counters_within (int (length ops)) (run ops (NewLimits cfg t0))"
  using run_counters_within [of 0 "NewLimits cfg t0" ops] assms
  by (simp add: counters_within_def NewLimits_def)

text \<open>
  C6. In every state \<open>l\<close> that a fresh limiter reaches by a run of calls (fewer than
  \<open>2^63 - 1\<close> of them, so that no counter has wrapped): a call that is neither a record
  nor a reset (the three checks, the accessors, \<open>ShouldResetDaily\<close>, the waits, at whatever
  instant) leaves every field as it is; \<open>RecordConnection\<close>, \<open>RecordMessage\<close> and
  \<open>RecordSearch\<close> add one to their counters, set their last-sent instants and change
  nothing else; and no call other than \<open>ResetDaily\<close> and \<open>ResetConsecutiveCount\<close> makes
  a counter smaller.
\<close>

theorem counters_move_only_by_record_and_reset:
  assumes "int (length ops) < max_int64" and "l = run ops (NewLimits cfg t0)"
  shows "(\<not> is_record op \<and> \<not> is_reset op \<longrightarrow> exec op now l = l) \<and>
         exec OpRecordConnection now l =
           l\<lparr>connectionCount := connectionCount l + 1, lastConnection := now,
             consecutiveCount := consecutiveCount l + 1\<rparr> \<and>
         exec OpRecordMessage now l =
           l\<lparr>messageCount := messageCount l + 1, lastMessage := now\<rparr> \<and>
         exec OpRecordSearch now l = l\<lparr>searchCount := searchCount l + 1\<rparr> \<and>
         (\<not> is_reset op \<longrightarrow>
            connectionCount l \<le> connectionCount (exec op now l) \<and>
            messageCount l \<le> messageCount (exec op now l) \<and>
            searchCount l \<le> searchCount (exec op now l) \<and>
            consecutiveCount l \<le> consecutiveCount (exec op now l))"
proof -
  have cw: "counters_within (int (length ops)) l"
    using fresh_run_counters [OF assms(1)] assms(2) by simp
  have w: "\<And>x. 0 \<le> x \<Longrightarrow> x \<le> int (length ops) \<Longrightarrow> wrap64 (x + 1) = x + 1"
    using assms(1) by (intro wrap64_id) (simp_all add: min_int64_def)
  have q: "\<not> is_record op \<and> \<not> is_reset op \<longrightarrow> exec op now l = l"
    by (cases op) simp_all
  have rc: "exec OpRecordConnection now l =
           l\<lparr>connectionCount := connectionCount l + 1, lastConnection := now,
             consecutiveCount := consecutiveCount l + 1\<rparr>"
    using cw w by (simp add: RecordConnection_def counters_within_def)
  have rm: "exec OpRecordMessage now l =
           l\<lparr>messageCount := messageCount l + 1, lastMessage := now\<rparr>"
    using cw w by (simp add: RecordMessage_def counters_within_def)
  have rs: "exec OpRecordSearch now l = l\<lparr>searchCount := searchCount l + 1\<rparr>"
    using cw w by (simp add: RecordSearch_def counters_within_def)
  have mono: "\<not> is_reset op \<longrightarrow>
            connectionCount l \<le> connectionCount (exec op now l) \<and>
            messageCount l \<le> messageCount (exec op now l) \<and>
            searchCount l \<le> searchCount (exec op now l) \<and>
            consecutiveCount l \<le> consecutiveCount (exec op now l)"
    using rc rm rs by (cases op) simp_all
  from q rc rm rs mono show ?thesis by blast
qed

text \<open>
  The instance of C6 after two recorded connections and one recorded message: a check
  made an hour later leaves the fields as they are, and a further recorded connection
  takes the counter from 2 to 3.
\<close>

theorem counters_move_only_by_record_and_reset_witness:
  "int (length [(OpRecordConnection, 63900000000 * Second),
                (OpRecordMessage, 63900000001 * Second),
                (OpRecordConnection, 63900000400 * Second)]) < max_int64 \<and>
   exec OpCanSendConnection (63900004000 * Second)
     (run [(OpRecordConnection, 63900000000 * Second),
           (OpRecordMessage, 63900000001 * Second),
           (OpRecordConnection, 63900000400 * Second)]
        (NewLimits DefaultLimitsConfig (63900000000 * Second))) =
     run [(OpRecordConnection, 63900000000 * Second),
          (OpRecordMessage, 63900000001 * Second),
          (OpRecordConnection, 63900000400 * Second)]
       (NewLimits DefaultLimitsConfig (63900000000 * Second)) \<and>
   connectionCount
     (run [(OpRecordConnection, 63900000000 * Second),
           (OpRecordMessage, 63900000001 * Second),
           (OpRecordConnection, 63900000400 * Second)]
        (NewLimits DefaultLimitsConfig (63900000000 * Second))) = 2 \<and>
   connectionCount
     (exec OpRecordConnection (63900004000 * Second)
        (run [(OpRecordConnection, 63900000000 * Second),
              (OpRecordMessage, 63900000001 * Second),
              (OpRecordConnection, 63900000400 * Second)]
           (NewLimits DefaultLimitsConfig (63900000000 * Second)))) = 3"
proof -
  let ?ops = "[(OpRecordConnection, 63900000000 * Second),
               (OpRecordMessage, 63900000001 * Second),
               (OpRecordConnection, 63900000400 * Second)]"
  let ?l = "run ?ops (NewLimits DefaultLimitsConfig (63900000000 * Second))"
  have len: "int (length ?ops) < max_int64"
    by (simp add: max_int64_def)
  have two: "connectionCount ?l = 2"
    by (simp add: RecordConnection_def RecordMessage_def NewLimits_def wrap64_def)
  note inst = counters_move_only_by_record_and_reset
    [OF len refl, of OpCanSendConnection "63900004000 * Second" DefaultLimitsConfig
      "63900000000 * Second"]
  have same: "exec OpCanSendConnection (63900004000 * Second) ?l = ?l"
    using inst by simp
  have "exec OpRecordConnection (63900004000 * Second) ?l =
        ?l\<lparr>connectionCount := connectionCount ?l + 1, lastConnection := 63900004000 * Second,
           consecutiveCount := consecutiveCount ?l + 1\<rparr>"
    using inst by blast
  then have three: "connectionCount (exec OpRecordConnection (63900004000 * Second) ?l) = 3"
    using two by simp
  from len same two three show ?thesis by blast
qed

section \<open>Properties of the post-processing filters\<close>

lemma FilterConnectable_loop_eq:
  "FilterConnectable_loop ps acc = acc @ filter (\<lambda>p. \<not> IsConnected p) ps"
  by (induction ps arbitrary: acc) simp_all

lemma FilterConnectable_eq: "FilterConnectable ps = filter (\<lambda>p. \<not> IsConnected p) ps"
  by (simp add: FilterConnectable_def FilterConnectable_loop_eq)

lemma seen_at_upd: "seen_at (seen(u \<mapsto> True)) x = (x = u \<or> seen_at seen x)"
  by (simp add: seen_at_def)

lemma DeduplicateProfiles_loop_eq:
  "DeduplicateProfiles_loop ps seen unique =
     unique @ first_occurrences (filter (\<lambda>p. \<not> seen_at seen (ProfileURL p)) ps)"
proof (induction ps arbitrary: seen unique)
  case Nil
  then show ?case by simp
next
  case (Cons p ps)
  show ?case
  proof (cases "seen_at seen (ProfileURL p)")
    case True
    then show ?thesis by (simp add: Cons.IH)
  next
    case False
    have "filter (\<lambda>q. \<not> seen_at (seen(ProfileURL p \<mapsto> True)) (ProfileURL q)) ps =
          filter (\<lambda>q. ProfileURL q \<noteq> ProfileURL p)
            (filter (\<lambda>q. \<not> seen_at seen (ProfileURL q)) ps)"
      by (simp add: seen_at_upd conj_commute)
    moreover have "DeduplicateProfiles_loop (p # ps) seen unique =
          DeduplicateProfiles_loop ps (seen(ProfileURL p \<mapsto> True)) (unique @ [p])"
      using False by simp
    ultimately show ?thesis using False by (simp only: Cons.IH) simp
  qed
qed

lemma DeduplicateProfiles_eq: "DeduplicateProfiles ps = first_occurrences ps"
  by (simp add: DeduplicateProfiles_def DeduplicateProfiles_loop_eq seen_at_def)

lemma set_first_occurrences: "ProfileURL ` set (first_occurrences ps) = ProfileURL ` set ps"
proof (induction ps rule: first_occurrences.induct)
  case 1
  then show ?case by simp
next
  case (2 p ps)
  then show ?case by auto
qed

lemma first_occurrences_subset: "set (first_occurrences ps) \<subseteq> set ps"
  by (induction ps rule: first_occurrences.induct) auto

lemma distinct_first_occurrences: "distinct (map ProfileURL (first_occurrences ps))"
proof (induction ps rule: first_occurrences.induct)
  case 1
  then show ?case by simp
next
  case (2 p ps)
  have "ProfileURL p \<notin> ProfileURL ` set (first_occurrences (filter (\<lambda>q. ProfileURL q \<noteq> ProfileURL p) ps))"
    using first_occurrences_subset [of "filter (\<lambda>q. ProfileURL q \<noteq> ProfileURL p) ps"] by auto
  with 2 show ?case by simp
qed

lemma subseq_first_occurrences: "subseq (first_occurrences ps) ps"
proof (induction ps rule: first_occurrences.induct)
  case 1
  then show ?case by simp
next
  case (2 p ps)
  have "subseq (filter (\<lambda>q. ProfileURL q \<noteq> ProfileURL p) ps) ps"
    by simp
  with 2 have "subseq (first_occurrences (filter (\<lambda>q. ProfileURL q \<noteq> ProfileURL p) ps)) ps"
    using subseq_order.order_trans by blast
  then show ?case by simp
qed

lemma first_occurrences_distinct_id:
  "distinct (map ProfileURL ps) \<Longrightarrow> first_occurrences ps = ps"
proof (induction ps)
  case Nil
  then show ?case by simp
next
  case (Cons p ps)
  from Cons.prems have "ProfileURL p \<notin> ProfileURL ` set ps"
    by simp
  then have "\<forall>q\<in>set ps. ProfileURL q \<noteq> ProfileURL p"
    by (metis imageI)
  then have "filter (\<lambda>q. ProfileURL q \<noteq> ProfileURL p) ps = ps"
    by (simp add: filter_id_conv)
  with Cons show ?case by simp
qed

lemma first_occurrences_snoc:
  "first_occurrences (ps @ [p]) =
     first_occurrences ps @ (if ProfileURL p \<in> ProfileURL ` set ps then [] else [p])"
proof (induction ps rule: first_occurrences.induct)
  case 1
  then show ?case by simp
next
  case (2 q ps)
  show ?case
  proof (cases "ProfileURL p = ProfileURL q")
    case True
    then show ?thesis using 2 by simp
  next
    case False
    then show ?thesis using 2 by auto
  qed
qed

lemma first_occurrences_map:
  assumes "\<And>p. ProfileURL (f p) = ProfileURL p"
  shows "first_occurrences (map f ps) = map f (first_occurrences ps)"
proof (induction ps rule: first_occurrences.induct)
  case 1
  then show ?case by simp
next
  case (2 p ps)
  have "filter (\<lambda>q. ProfileURL q \<noteq> ProfileURL (f p)) (map f ps) =
        map f (filter (\<lambda>q. ProfileURL q \<noteq> ProfileURL p) ps)"
    by (simp add: filter_map comp_def assms)
  with 2 show ?case by (simp add: assms)
qed

lemma filter_connectable_map:
  assumes "\<And>p. IsConnected (g p) = IsConnected p"
  shows "filter (\<lambda>p. \<not> IsConnected p) (map g ps) = map g (filter (\<lambda>p. \<not> IsConnected p) ps)"
  by (simp add: filter_map comp_def assms)


text \<open>
  C8. For every list of profiles, \<open>DeduplicateProfiles\<close> returns the subsequence that keeps
  the first occurrence of each \<open>ProfileURL\<close>: the elements are those of the input, in its
  order; their URLs are pairwise distinct and are all the URLs of the input; an element
  appended to the input is kept exactly when its URL did not occur before; and the function
  is idempotent. \<open>FilterConnectable\<close> returns the elements whose \<open>IsConnected\<close> is false, in
  order, and is idempotent. Neither reads anything but \<open>ProfileURL\<close> and \<open>IsConnected\<close>:
  each commutes with every change of the elements that keeps that field.
\<close>

theorem post_filters:
  assumes f: "\<And>p. ProfileURL (f p) = ProfileURL p"
      and g: "\<And>p. IsConnected (g p) = IsConnected p"
  shows "DeduplicateProfiles ps = first_occurrences ps \<and>
         subseq (DeduplicateProfiles ps) ps \<and>
         distinct (map ProfileURL (DeduplicateProfiles ps)) \<and>
         ProfileURL ` set (DeduplicateProfiles ps) = ProfileURL ` set ps \<and>
         DeduplicateProfiles (ps @ [p]) =
           DeduplicateProfiles ps @ (if ProfileURL p \<in> ProfileURL ` set ps then [] else [p]) \<and>
         DeduplicateProfiles (DeduplicateProfiles ps) = DeduplicateProfiles ps \<and>
         FilterConnectable ps = filter (\<lambda>p. \<not> IsConnected p) ps \<and>
         FilterConnectable (FilterConnectable ps) = FilterConnectable ps \<and>
         DeduplicateProfiles (map f ps) = map f (DeduplicateProfiles ps) \<and>
         FilterConnectable (map g ps) = map g (FilterConnectable ps)"
proof -
  have idem: "DeduplicateProfiles (DeduplicateProfiles ps) = DeduplicateProfiles ps"
    by (simp add: DeduplicateProfiles_eq first_occurrences_distinct_id distinct_first_occurrences)
  have m1: "DeduplicateProfiles (map f ps) = map f (DeduplicateProfiles ps)"
    using f by (simp add: DeduplicateProfiles_eq first_occurrences_map)
  have m2: "FilterConnectable (map g ps) = map g (FilterConnectable ps)"
    using g by (simp add: FilterConnectable_eq filter_connectable_map)
  have rest: "DeduplicateProfiles ps = first_occurrences ps \<and>
         subseq (DeduplicateProfiles ps) ps \<and>
         distinct (map ProfileURL (DeduplicateProfiles ps)) \<and>
         ProfileURL ` set (DeduplicateProfiles ps) = ProfileURL ` set ps \<and>
         DeduplicateProfiles (ps @ [p]) =
           DeduplicateProfiles ps @ (if ProfileURL p \<in> ProfileURL ` set ps then [] else [p]) \<and>
         FilterConnectable ps = filter (\<lambda>p. \<not> IsConnected p) ps \<and>
         FilterConnectable (FilterConnectable ps) = FilterConnectable ps"
    by (simp add: DeduplicateProfiles_eq FilterConnectable_eq subseq_first_occurrences
          distinct_first_occurrences set_first_occurrences first_occurrences_snoc)
  from idem m1 m2 rest show ?thesis by blast
qed

text \<open>
  The instance of C8 for three profiles, the third with the URL of the first, and the
  change that clears the name.
\<close>

theorem post_filters_witness:
  "(\<forall>p. ProfileURL (clear_name p) = ProfileURL p) \<and>
   (\<forall>p. IsConnected (clear_name p) = IsConnected p) \<and>
   DeduplicateProfiles
     [example_profile ''/in/a'' ''A'' False, example_profile ''/in/b'' ''B'' True,
      example_profile ''/in/a'' ''A again'' False] =
     [example_profile ''/in/a'' ''A'' False, example_profile ''/in/b'' ''B'' True] \<and>
   FilterConnectable
     [example_profile ''/in/a'' ''A'' False, example_profile ''/in/b'' ''B'' True,
      example_profile ''/in/a'' ''A again'' False] =
     [example_profile ''/in/a'' ''A'' False, example_profile ''/in/a'' ''A again'' False] \<and>
   DeduplicateProfiles (map clear_name
     [example_profile ''/in/a'' ''A'' False, example_profile ''/in/b'' ''B'' True,
      example_profile ''/in/a'' ''A again'' False]) =
     [example_profile ''/in/a'' [] False, example_profile ''/in/b'' [] True]"
proof -
  let ?ps = "[example_profile ''/in/a'' ''A'' False, example_profile ''/in/b'' ''B'' True,
      example_profile ''/in/a'' ''A again'' False]"
  have f: "\<And>p. ProfileURL (clear_name p) = ProfileURL p"
    by (simp add: clear_name_def)
  have g: "\<And>p. IsConnected (clear_name p) = IsConnected p"
    by (simp add: clear_name_def)
  note inst = post_filters [of clear_name clear_name ?ps, OF f g]
  have d: "DeduplicateProfiles ?ps =
        [example_profile ''/in/a'' ''A'' False, example_profile ''/in/b'' ''B'' True]"
    using inst by (simp add: example_profile_def)
  have c: "FilterConnectable ?ps =
        [example_profile ''/in/a'' ''A'' False, example_profile ''/in/a'' ''A again'' False]"
    using inst by (simp add: example_profile_def)
  have "DeduplicateProfiles (map clear_name ?ps) = map clear_name (DeduplicateProfiles ?ps)"
    using inst by blast
  then have m: "DeduplicateProfiles (map clear_name ?ps) =
        [example_profile ''/in/a'' [] False, example_profile ''/in/b'' [] True]"
    by (simp add: d) (simp add: example_profile_def clear_name_def)
  from f g d c m show ?thesis by blast
qed

section \<open>Properties of the checkpoint detector\<close>

lemma any_visible_iff:
  "any_visible p sels = (\<exists>sel\<in>set sels. \<exists>el. Element p sel = Some el \<and> Visible el)"
  by (induction sels) (auto split: option.splits)

lemma any_present_iff:
  "any_present p sels = (\<exists>sel\<in>set sels. Element p sel \<noteq> None)"
  by (induction sels) (auto split: option.splits)

lemma contains_any_iff:
  "contains_any s ks = (\<exists>k\<in>set ks. contains s k)"
  by (induction ks) auto

text \<open>
  C3, as amended. For every page: \<open>hasCAPTCHA\<close> and \<open>has2FA\<close> return true exactly when an
  element of one of their selectors is found and reported visible; \<open>hasVerificationChallenge\<close>
  returns true exactly when such an element of its selectors is, or the URL contains a
  challenge path; \<open>hasAccountRestriction\<close> and \<open>hasUnusualActivity\<close> return true whenever
  the body is found and its text contains one of their keywords, whether or not anything
  is visible, and return true only if one of their marker elements is found or the text of
  the body contains one of their keywords; a visible CAPTCHA marker gives
  \<open>CheckpointCAPTCHA\<close>; and a page whose CAPTCHA, second-factor and verification markers
  are not reported visible, whose URL contains no challenge path, on which no restriction
  or unusual-activity marker is found and whose body text contains no keyword is classified
  as \<open>CheckpointNone\<close>.
\<close>

theorem visible_markers_and_text_signals:
  "(hasCAPTCHA p =
      (\<exists>sel\<in>set captcha_selectors. \<exists>el. Element p sel = Some el \<and> Visible el)) \<and>
   (has2FA p =
      (\<exists>sel\<in>set twofa_selectors. \<exists>el. Element p sel = Some el \<and> Visible el)) \<and>
   ((hasVerificationChallenge p = Some True) =
      ((\<exists>sel\<in>set verification_selectors. \<exists>el. Element p sel = Some el \<and> Visible el) \<or>
       (\<exists>url. PageURL p = Some url \<and> (\<exists>path\<in>set verificationPaths. contains url path)))) \<and>
   ((\<exists>b. Element p ''body'' = Some b \<and>
         (\<exists>k\<in>set restrictionKeywords. contains (Text b) k)) \<longrightarrow>
      hasAccountRestriction p) \<and>
   (hasAccountRestriction p \<longrightarrow>
      (\<exists>sel\<in>set restriction_selectors. \<exists>el. Element p sel = Some el) \<or>
      (\<exists>b. Element p ''body'' = Some b \<and>
           (\<exists>k\<in>set restrictionKeywords. contains (Text b) k))) \<and>
   ((\<exists>b. Element p ''body'' = Some b \<and>
         (contains (Text b) ''unusual activity'' \<or>
          contains (Text b) ''verify your identity'')) \<longrightarrow>
      hasUnusualActivity p) \<and>
   (hasUnusualActivity p \<longrightarrow>
      (\<exists>sel\<in>set unusual_selectors. \<exists>el. Element p sel = Some el) \<or>
      (\<exists>b. Element p ''body'' = Some b \<and>
           (contains (Text b) ''unusual activity'' \<or>
            contains (Text b) ''verify your identity''))) \<and>
   (hasCAPTCHA p \<longrightarrow>
      Detect p =
        Some (CheckpointCAPTCHA, ''CAPTCHA challenge detected - manual intervention required'')) \<and>
   ((\<forall>sel\<in>set (captcha_selectors @ twofa_selectors @ verification_selectors).
        \<forall>el. Element p sel = Some el \<longrightarrow> \<not> Visible el) \<and>
    (\<exists>url. PageURL p = Some url \<and> (\<forall>path\<in>set verificationPaths. \<not> contains url path)) \<and>
    (\<forall>sel\<in>set (restriction_selectors @ unusual_selectors). Element p sel = None) \<and>
    (\<forall>b. Element p ''body'' = Some b \<longrightarrow>
        (\<forall>k\<in>set restrictionKeywords. \<not> contains (Text b) k) \<and>
        \<not> contains (Text b) ''unusual activity'' \<and>
        \<not> contains (Text b) ''verify your identity'')
    \<longrightarrow> Detect p = Some (CheckpointNone, []))"
proof -
  have c1: "hasCAPTCHA p =
      (\<exists>sel\<in>set captcha_selectors. \<exists>el. Element p sel = Some el \<and> Visible el)"
    by (simp add: hasCAPTCHA_def any_visible_iff)
  have c2: "has2FA p =
      (\<exists>sel\<in>set twofa_selectors. \<exists>el. Element p sel = Some el \<and> Visible el)"
    by (simp add: has2FA_def any_visible_iff)
  have c3: "(hasVerificationChallenge p = Some True) =
      ((\<exists>sel\<in>set verification_selectors. \<exists>el. Element p sel = Some el \<and> Visible el) \<or>
       (\<exists>url. PageURL p = Some url \<and> (\<exists>path\<in>set verificationPaths. contains url path)))"
    by (auto simp: hasVerificationChallenge_def any_visible_iff contains_any_iff
        split: option.splits)
  have c4: "(\<exists>b. Element p ''body'' = Some b \<and>
         (\<exists>k\<in>set restrictionKeywords. contains (Text b) k)) \<longrightarrow>
      hasAccountRestriction p"
    by (auto simp: hasAccountRestriction_def any_present_iff contains_any_iff
        split: option.splits)
  have c4': "hasAccountRestriction p \<longrightarrow>
      (\<exists>sel\<in>set restriction_selectors. \<exists>el. Element p sel = Some el) \<or>
      (\<exists>b. Element p ''body'' = Some b \<and>
           (\<exists>k\<in>set restrictionKeywords. contains (Text b) k))"
    by (auto simp: hasAccountRestriction_def any_present_iff contains_any_iff
        split: option.splits if_splits)
  have c5: "(\<exists>b. Element p ''body'' = Some b \<and>
         (contains (Text b) ''unusual activity'' \<or>
          contains (Text b) ''verify your identity'')) \<longrightarrow>
      hasUnusualActivity p"
    by (auto simp: hasUnusualActivity_def any_present_iff split: option.splits)
  have c5': "hasUnusualActivity p \<longrightarrow>
      (\<exists>sel\<in>set unusual_selectors. \<exists>el. Element p sel = Some el) \<or>
      (\<exists>b. Element p ''body'' = Some b \<and>
           (contains (Text b) ''unusual activity'' \<or>
            contains (Text b) ''verify your identity''))"
    by (auto simp: hasUnusualActivity_def any_present_iff split: option.splits if_splits)
  have c6: "hasCAPTCHA p \<longrightarrow>
      Detect p =
        Some (CheckpointCAPTCHA, ''CAPTCHA challenge detected - manual intervention required'')"
    by (simp add: Detect_def)
  have c7: "(\<forall>sel\<in>set (captcha_selectors @ twofa_selectors @ verification_selectors).
        \<forall>el. Element p sel = Some el \<longrightarrow> \<not> Visible el) \<and>
    (\<exists>url. PageURL p = Some url \<and> (\<forall>path\<in>set verificationPaths. \<not> contains url path)) \<and>
    (\<forall>sel\<in>set (restriction_selectors @ unusual_selectors). Element p sel = None) \<and>
    (\<forall>b. Element p ''body'' = Some b \<longrightarrow>
        (\<forall>k\<in>set restrictionKeywords. \<not> contains (Text b) k) \<and>
        \<not> contains (Text b) ''unusual activity'' \<and>
        \<not> contains (Text b) ''verify your identity'')
    \<longrightarrow> Detect p = Some (CheckpointNone, [])"
  proof
    assume a: "(\<forall>sel\<in>set (captcha_selectors @ twofa_selectors @ verification_selectors).
        \<forall>el. Element p sel = Some el \<longrightarrow> \<not> Visible el) \<and>
    (\<exists>url. PageURL p = Some url \<and> (\<forall>path\<in>set verificationPaths. \<not> contains url path)) \<and>
    (\<forall>sel\<in>set (restriction_selectors @ unusual_selectors). Element p sel = None) \<and>
    (\<forall>b. Element p ''body'' = Some b \<longrightarrow>
        (\<forall>k\<in>set restrictionKeywords. \<not> contains (Text b) k) \<and>
        \<not> contains (Text b) ''unusual activity'' \<and>
        \<not> contains (Text b) ''verify your identity'')"
    have n1: "\<not> hasCAPTCHA p" using a c1 by auto
    have n2: "\<not> has2FA p" using a c2 by auto
    have nv: "\<not> any_visible p verification_selectors"
      using a by (auto simp: any_visible_iff)
    have n3: "hasVerificationChallenge p = Some False"
      using a nv by (auto simp: hasVerificationChallenge_def contains_any_iff)
    have n4: "\<not> hasAccountRestriction p"
      using a by (auto simp: hasAccountRestriction_def any_present_iff contains_any_iff
          split: option.splits)
    have n5: "\<not> hasUnusualActivity p"
      using a by (auto simp: hasUnusualActivity_def any_present_iff split: option.splits)
    show "Detect p = Some (CheckpointNone, [])"
      by (simp add: Detect_def n1 n2 n3 n4 n5)
  qed
  from c1 c2 c3 c4 c4' c5 c5' c6 c7 show ?thesis by blast
qed

text \<open>
  The instance of C3 for \<open>page_hidden_challenges\<close>: the markers of the CAPTCHA, of the second
  factor and of the verification challenge are found, none is reported visible, and the
  page is classified as \<open>CheckpointNone\<close>.
\<close>

theorem visible_markers_and_text_signals_witness:
  "Element page_hidden_challenges ''#captcha-internal'' = Some hidden_element \<and>
   Element page_hidden_challenges ''.two-step-verification'' = Some hidden_element \<and>
   Element page_hidden_challenges ''.challenge-dialog'' = Some hidden_element \<and>
   Visible hidden_element = False \<and>
   Detect page_hidden_challenges = Some (CheckpointNone, [])"
proof -
  have e: "Element page_hidden_challenges ''#captcha-internal'' = Some hidden_element \<and>
        Element page_hidden_challenges ''.two-step-verification'' = Some hidden_element \<and>
        Element page_hidden_challenges ''.challenge-dialog'' = Some hidden_element \<and>
        Visible hidden_element = False"
    by code_simp
  have h1: "\<forall>sel\<in>set (captcha_selectors @ twofa_selectors @ verification_selectors).
        \<forall>el. Element page_hidden_challenges sel = Some el \<longrightarrow> \<not> Visible el"
    by (simp add: page_hidden_challenges_def hidden_element_def)
  have u: "PageURL page_hidden_challenges = Some feed_url"
    by (simp add: page_hidden_challenges_def)
  have np: "\<forall>path\<in>set verificationPaths. \<not> contains feed_url path"
    by code_simp
  have h2: "\<exists>url. PageURL page_hidden_challenges = Some url \<and>
        (\<forall>path\<in>set verificationPaths. \<not> contains url path)"
    using u np by blast
  have h3: "\<forall>sel\<in>set (restriction_selectors @ unusual_selectors).
        Element page_hidden_challenges sel = None"
    by code_simp
  have b: "Element page_hidden_challenges ''body'' = Some \<lparr>Visible = True, Text = ''Welcome back''\<rparr>"
    by code_simp
  have k: "(\<forall>k\<in>set restrictionKeywords. \<not> contains ''Welcome back'' k) \<and>
        \<not> contains ''Welcome back'' ''unusual activity'' \<and>
        \<not> contains ''Welcome back'' ''verify your identity''"
    by code_simp
  have h4: "\<forall>b. Element page_hidden_challenges ''body'' = Some b \<longrightarrow>
        (\<forall>k\<in>set restrictionKeywords. \<not> contains (Text b) k) \<and>
        \<not> contains (Text b) ''unusual activity'' \<and>
        \<not> contains (Text b) ''verify your identity''"
    using b k by simp
  have "Detect page_hidden_challenges = Some (CheckpointNone, [])"
    using visible_markers_and_text_signals [of page_hidden_challenges] h1 h2 h3 h4
    by blast
  with e show ?thesis by blast
qed

text \<open>
  C3 as stated fails. On \<open>page_text_only\<close> no marker element is found and the body is not
  reported visible, yet \<open>hasAccountRestriction\<close> returns true, from the text of the body.
  On \<open>page_hidden_markers\<close> every marker element is found and none is reported visible, yet
  the page is classified as \<open>CheckpointRestricted\<close>, not as \<open>CheckpointNone\<close>.
\<close>

theorem text_and_hidden_markers_counterexample:
  "list_all (\<lambda>sel. Element page_text_only sel = None) marker_selectors \<and>
   map_option Visible (Element page_text_only ''body'') = Some False \<and>
   hasAccountRestriction page_text_only \<and>
   Detect page_text_only = Some (CheckpointRestricted, ''Account has been restricted'') \<and>
   list_all (\<lambda>sel. Element page_hidden_markers sel = Some hidden_element) marker_selectors \<and>
   Visible hidden_element = False \<and>
   Detect page_hidden_markers = Some (CheckpointRestricted, ''Account has been restricted'')"
  by code_simp

section \<open>Properties of the timing controller\<close>

lemma wrap64_small: "0 \<le> x \<Longrightarrow> x < 10001 \<Longrightarrow> wrap64 x = x"
  by (rule wrap64_id) (simp_all add: min_int64_def max_int64_def)

lemma randomInt_unit:
  "randomInt e 0 10000 =
     (case e of None \<Rightarrow> Some (0, Some ErrRandomSource)
              | Some k \<Rightarrow> Some (int k mod 10001, None))"
proof -
  have d: "wrap64 (10000 - 0 + 1) = 10001"
    by (simp add: wrap64_def)
  have w: "wrap64 (int k mod 10001) = int k mod 10001" for k
    by (simp add: wrap64_small)
  show ?thesis
    unfolding randomInt_def Let_def d
    by (simp add: w split: option.splits)
qed

lemma randomFloat_returns: "\<exists>u. randomFloat e a b = Some u"
  by (simp add: randomFloat_def randomInt_unit split: option.splits)

lemma logNormalDelay_returns: "\<exists>d. logNormalDelay kf e1 e2 a b = Some d"
proof -
  obtain u1 where u1: "randomFloat e1 0 1 = Some u1"
    using randomFloat_returns by blast
  obtain u2 where u2: "randomFloat e2 0 1 = Some u2"
    using randomFloat_returns by blast
  show ?thesis by (simp add: logNormalDelay_def u1 u2 Let_def)
qed


lemma wrap64_ge_min: "min_int64 \<le> wrap64 x"
  by (simp add: wrap64_def min_int64_def)

lemma wrap64_succ_ge: "x < max_int64 \<Longrightarrow> x \<le> wrap64 (x + 1)"
proof (cases "min_int64 \<le> x + 1")
  case True
  assume "x < max_int64"
  with True have "wrap64 (x + 1) = x + 1"
    by (intro wrap64_id) simp_all
  then show ?thesis by simp
next
  case False
  then have "x < min_int64" by simp
  with wrap64_ge_min [of "x + 1"] show ?thesis by simp
qed

lemma ActionDelay_returns: "\<exists>r. ActionDelay kf e1 e2 t = Some r"
proof -
  obtain d where "logNormalDelay kf e1 e2 (MinActionDelay (timing_config t))
      (MaxActionDelay (timing_config t)) = Some d"
    using logNormalDelay_returns by blast
  then show ?thesis by (simp add: ActionDelay_def)
qed

text \<open>
  C2, as amended. In every controller state whose action counter has reached the fatigue
  threshold, \<open>ActionDelay\<close> returns its sampled delay multiplied by the fatigue multiplier,
  sets the fatigue flag and adds one to the counter, so that (short of the largest \<open>int\<close>)
  the threshold stays reached after it and after \<open>IncrementAction\<close>; \<open>ResetFatigue\<close> zeroes
  the counter and the flag, after which, for a positive threshold, \<open>ActionDelay\<close> returns
  the sampled delay itself. \<open>PageLoadDelay\<close>, \<open>ShortPause\<close>, \<open>MediumPause\<close>, \<open>LongPause\<close>,
  \<open>ReadingTime\<close> and \<open>ThinkingDelay\<close> return, for the same draws, the same delay in every
  state of the controller: fatigue does not multiply them.
\<close>

theorem fatigue_scales_action_delay_only:
  assumes fatigued: "FatigueAfter (timing_config t) \<le> actionCount t"
  shows "(\<exists>base. logNormalDelay kf e1 e2 (MinActionDelay (timing_config t))
                   (MaxActionDelay (timing_config t)) = Some base \<and>
            ActionDelay kf e1 e2 t =
              Some (fatigue_scaled (timing_config t) base,
                    t\<lparr>fatigueActive := True, actionCount := wrap64 (actionCount t + 1)\<rparr>) \<and>
            (0 < FatigueAfter (timing_config t) \<longrightarrow>
               ActionDelay kf e1 e2 (ResetFatigue t) =
                 Some (base, t\<lparr>actionCount := 1, fatigueActive := False\<rparr>))) \<and>
         (actionCount t < max_int64 \<longrightarrow>
            FatigueAfter (timing_config t) \<le> actionCount (IncrementAction t) \<and>
            FatigueAfter (timing_config t) \<le>
              actionCount (t\<lparr>fatigueActive := True, actionCount := wrap64 (actionCount t + 1)\<rparr>)) \<and>
         PageLoadDelay kf e1 e2 t = PageLoadDelay kf e1 e2 t' \<and>
         ShortPause kf e1 e2 t = ShortPause kf e1 e2 t' \<and>
         MediumPause kf e1 e2 t = MediumPause kf e1 e2 t' \<and>
         LongPause kf e1 e2 t = LongPause kf e1 e2 t' \<and>
         ReadingTime e1 t wordCount = ReadingTime e1 t' wordCount \<and>
         ThinkingDelay kf e1 e2 t = ThinkingDelay kf e1 e2 t' \<and>
         ResetFatigue t = t\<lparr>actionCount := 0, fatigueActive := False\<rparr>"
proof -
  obtain base where base: "logNormalDelay kf e1 e2 (MinActionDelay (timing_config t))
                   (MaxActionDelay (timing_config t)) = Some base"
    using logNormalDelay_returns by blast
  have a: "ActionDelay kf e1 e2 t =
              Some (fatigue_scaled (timing_config t) base,
                    t\<lparr>fatigueActive := True, actionCount := wrap64 (actionCount t + 1)\<rparr>)"
    using fatigued by (simp add: ActionDelay_def base fatigue_scaled_def)
  have r: "0 < FatigueAfter (timing_config t) \<longrightarrow>
               ActionDelay kf e1 e2 (ResetFatigue t) =
                 Some (base, t\<lparr>actionCount := 1, fatigueActive := False\<rparr>)"
    by (simp add: ActionDelay_def ResetFatigue_def base wrap64_def)
  have p: "actionCount t < max_int64 \<longrightarrow>
            FatigueAfter (timing_config t) \<le> actionCount (IncrementAction t) \<and>
            FatigueAfter (timing_config t) \<le>
              actionCount (t\<lparr>fatigueActive := True, actionCount := wrap64 (actionCount t + 1)\<rparr>)"
  proof
    assume lt: "actionCount t < max_int64"
    have "actionCount t \<le> wrap64 (actionCount t + 1)"
      using lt by (rule wrap64_succ_ge)
    then show "FatigueAfter (timing_config t) \<le> actionCount (IncrementAction t) \<and>
            FatigueAfter (timing_config t) \<le>
              actionCount (t\<lparr>fatigueActive := True, actionCount := wrap64 (actionCount t + 1)\<rparr>)"
      using fatigued by (simp add: IncrementAction_def)
  qed
  have o: "PageLoadDelay kf e1 e2 t = PageLoadDelay kf e1 e2 t' \<and>
         ShortPause kf e1 e2 t = ShortPause kf e1 e2 t' \<and>
         MediumPause kf e1 e2 t = MediumPause kf e1 e2 t' \<and>
         LongPause kf e1 e2 t = LongPause kf e1 e2 t' \<and>
         ReadingTime e1 t wordCount = ReadingTime e1 t' wordCount \<and>
         ThinkingDelay kf e1 e2 t = ThinkingDelay kf e1 e2 t' \<and>
         ResetFatigue t = t\<lparr>actionCount := 0, fatigueActive := False\<rparr>"
    by (simp add: PageLoadDelay_def ShortPause_def MediumPause_def LongPause_def
        ReadingTime_def ThinkingDelay_def ResetFatigue_def)
  from base a r p o show ?thesis by blast
qed

text \<open>
  The instance of C2 for the default settings after 21 actions, with draws that clamp the
  sample to the lower bound: \<open>ActionDelay\<close> returns 750 ms for the sample of 500 ms.
\<close>

theorem fatigue_scales_action_delay_only_witness:
  "FatigueAfter (timing_config tired_timing) \<le> actionCount tired_timing \<and>
   ActionDelay lower_clamp (Some 0) (Some 5000) tired_timing =
     Some (750 * Millisecond, tired_timing\<lparr>actionCount := 22\<rparr>) \<and>
   ShortPause lower_clamp (Some 0) (Some 5000) tired_timing =
     ShortPause lower_clamp (Some 0) (Some 5000) (NewTiming DefaultTimingConfig)"
proof -
  have f: "FatigueAfter (timing_config tired_timing) \<le> actionCount tired_timing"
    by (simp add: tired_timing_def DefaultTimingConfig_def)
  note inst = fatigue_scales_action_delay_only
    [OF f, of lower_clamp "Some 0" "Some 5000" "NewTiming DefaultTimingConfig"]
  have b: "logNormalDelay lower_clamp (Some 0) (Some 5000)
             (MinActionDelay (timing_config tired_timing))
             (MaxActionDelay (timing_config tired_timing)) = Some (500 * Millisecond)"
    by (simp add: logNormalDelay_def randomFloat_def randomInt_unit lower_clamp_def
        tired_timing_def DefaultTimingConfig_def Milliseconds_def quo_def Millisecond_def
        Second_def wrap64_def)
  have s: "fatigue_scaled (timing_config tired_timing) (500 * Millisecond) = 750 * Millisecond"
    by (simp add: fatigue_scaled_def tired_timing_def DefaultTimingConfig_def
        Duration_of_float_def Millisecond_def)
  have n: "tired_timing\<lparr>fatigueActive := True, actionCount := wrap64 (actionCount tired_timing + 1)\<rparr> =
        tired_timing\<lparr>actionCount := 22\<rparr>"
    by (simp add: tired_timing_def wrap64_def)
  have a: "ActionDelay lower_clamp (Some 0) (Some 5000) tired_timing =
        Some (750 * Millisecond, tired_timing\<lparr>actionCount := 22\<rparr>)"
    using inst b s n by auto
  have p: "ShortPause lower_clamp (Some 0) (Some 5000) tired_timing =
     ShortPause lower_clamp (Some 0) (Some 5000) (NewTiming DefaultTimingConfig)"
    using inst by blast
  from f a p show ?thesis by blast
qed

text \<open>
  C2 as stated fails: in that state, past the threshold and with no reset, \<open>ShortPause\<close>
  returns the 200 ms that a fresh controller returns for the same draws, not the 300 ms
  that the multiplier 1.5 makes of them.
\<close>

theorem pauses_not_scaled_counterexample:
  "FatigueAfter (timing_config tired_timing) \<le> actionCount tired_timing \<and>
   ShortPause lower_clamp (Some 0) (Some 5000) (NewTiming DefaultTimingConfig) =
     Some (200 * Millisecond) \<and>
   fatigue_scaled (timing_config tired_timing) (200 * Millisecond) = 300 * Millisecond \<and>
   ShortPause lower_clamp (Some 0) (Some 5000) tired_timing = Some (200 * Millisecond)"
proof -
  have f: "FatigueAfter (timing_config tired_timing) \<le> actionCount tired_timing"
    by (simp add: tired_timing_def DefaultTimingConfig_def)
  have sp: "ShortPause lower_clamp (Some 0) (Some 5000) t = Some (200 * Millisecond)" for t
    by (simp add: ShortPause_def logNormalDelay_def randomFloat_def randomInt_unit
        lower_clamp_def Milliseconds_def quo_def Millisecond_def wrap64_def)
  have sc: "fatigue_scaled (timing_config tired_timing) (200 * Millisecond) = 300 * Millisecond"
    by (simp add: fatigue_scaled_def tired_timing_def DefaultTimingConfig_def
        Duration_of_float_def Millisecond_def)
  from f sp sc show ?thesis by blast
qed

section \<open>Properties of the pointer path\<close>

lemma cubicBezier_0: "cubicBezier 0 p0 p1 p2 p3 = p0"
  by (simp add: cubicBezier_def)

lemma cubicBezier_1: "cubicBezier 1 p0 p1 p2 p3 = p3"
  by (simp add: cubicBezier_def)

lemma randomInt_in_range:
  assumes "mn \<le> mx" and "min_int64 \<le> mn" and "mx \<le> max_int64"
      and "mx - mn < max_int64"
      and "mn < mx \<longrightarrow> e \<noteq> None"
  shows "\<exists>v. randomInt e mn mx = Some (v, None) \<and> mn \<le> v \<and> v \<le> mx"
proof (cases "mn = mx")
  case True
  then show ?thesis by (simp add: randomInt_def)
next
  case False
  with assms(1) have lt: "mn < mx" by simp
  with assms(5) obtain k where k: "e = Some k" by auto
  have d: "wrap64 (mx - mn + 1) = mx - mn + 1"
    using assms lt by (intro wrap64_id) (simp_all add: min_int64_def)
  have pos: "0 < mx - mn + 1" using lt by simp
  have lo: "0 \<le> int k mod (mx - mn + 1)" using pos by (rule pos_mod_sign)
  have hi: "int k mod (mx - mn + 1) < mx - mn + 1" using pos by (rule pos_mod_bound)
  have ub: "int k mod (mx - mn + 1) + mn \<le> mx" using hi by linarith
  have lb: "mn \<le> int k mod (mx - mn + 1) + mn" using lo by linarith
  have w: "wrap64 (int k mod (mx - mn + 1) + mn) = int k mod (mx - mn + 1) + mn"
  proof (rule wrap64_id)
    show "min_int64 \<le> int k mod (mx - mn + 1) + mn" using lb assms(2) by linarith
    show "int k mod (mx - mn + 1) + mn \<le> max_int64" using ub assms(3) by linarith
  qed
  show ?thesis
    using lt pos ub lb by (simp add: randomInt_def d k w Let_def)
qed

text \<open>
  C7. For every start point \<open>A\<close>, end point \<open>B\<close> and step bounds with
  \<open>2 \<le> MinSteps \<le> MaxSteps\<close> (an \<open>int\<close>), whenever the random source delivers the
  number of steps, the path generated has between \<open>MinSteps\<close> and \<open>MaxSteps\<close> points, its
  first point is \<open>A\<close> and its last point is \<open>B\<close>; the cubic at the parameters 0 and 1
  is its end points. Coordinates are real numbers here, so the equalities are those of
  the source up to the rounding of \<open>float64\<close>.
\<close>

theorem bezier_path_endpoints:
  assumes "2 \<le> MinSteps cfg" and "MinSteps cfg \<le> MaxSteps cfg"
      and "MaxSteps cfg \<le> max_int64"
      and "MinSteps cfg < MaxSteps cfg \<longrightarrow> e0 \<noteq> None"
  shows "(\<exists>ps. generateBezierPath cfg e0 e1 e2 e3 e4 A B = Path ps \<and>
           MinSteps cfg \<le> int (length ps) \<and> int (length ps) \<le> MaxSteps cfg \<and>
           hd ps = A \<and> last ps = B) \<and>
         cubicBezier 0 A p1 p2 B = A \<and> cubicBezier 1 A p1 p2 B = B"
proof -
  obtain steps where r: "randomInt e0 (MinSteps cfg) (MaxSteps cfg) = Some (steps, None)"
      and lo: "MinSteps cfg \<le> steps" and hi: "steps \<le> MaxSteps cfg"
    using randomInt_in_range [of "MinSteps cfg" "MaxSteps cfg" e0] assms
    by (auto simp: min_int64_def)
  let ?d = "sqrt ((X B - X A)\<^sup>2 + (Y B - Y A)\<^sup>2)"
  obtain r1 where r1: "randomFloat e1 (- ?d * (2 / 10)) (?d * (2 / 10)) = Some r1"
    using randomFloat_returns by blast
  obtain r2 where r2: "randomFloat e2 (- ?d * (2 / 10)) (?d * (2 / 10)) = Some r2"
    using randomFloat_returns by blast
  obtain r3 where r3: "randomFloat e3 (- ?d * (2 / 10)) (?d * (2 / 10)) = Some r3"
    using randomFloat_returns by blast
  obtain r4 where r4: "randomFloat e4 (- ?d * (2 / 10)) (?d * (2 / 10)) = Some r4"
    using randomFloat_returns by blast
  let ?c1 = "\<lparr>X = X A + (X B - X A) * (33 / 100) + r1, Y = Y A + (Y B - Y A) * (33 / 100) + r2\<rparr>"
  let ?c2 = "\<lparr>X = X A + (X B - X A) * (66 / 100) + r3, Y = Y A + (Y B - Y A) * (66 / 100) + r4\<rparr>"
  let ?f = "\<lambda>i. cubicBezier (real i / real_of_int (steps - 1)) A ?c1 ?c2 B"
  let ?ps = "map ?f [0 ..< nat steps]"
  have s2: "2 \<le> steps" using assms(1) lo by simp
  have p: "generateBezierPath cfg e0 e1 e2 e3 e4 A B = Path ?ps"
    unfolding generateBezierPath_def Let_def r r1 r2 r3 r4
    using s2 by simp
  have len: "int (length ?ps) = steps" using s2 by simp
  have ne: "[0 ..< nat steps] \<noteq> []" using s2 by simp
  have "hd ?ps = ?f (hd [0 ..< nat steps])"
    using ne by (simp add: hd_map)
  also have "hd [0 ..< nat steps] = 0"
    using s2 by (simp add: hd_upt)
  finally have h: "hd ?ps = A"
    by (simp add: cubicBezier_0)
  have "last ?ps = ?f (last [0 ..< nat steps])"
    using ne by (simp add: last_map)
  also have "last [0 ..< nat steps] = nat steps - 1"
    using s2 by (simp add: last_upt)
  also have "real (nat steps - 1) / real_of_int (steps - 1) = 1"
    using s2 by (simp add: of_nat_diff)
  finally have l: "last ?ps = B"
    by (simp add: cubicBezier_1)
  from p len lo hi h l cubicBezier_0 [of A p1 p2 B] cubicBezier_1 [of A p1 p2 B]
  show ?thesis by auto
qed

text \<open>
  The instance of C7 for the default settings (80 to 150 steps), from the centre of the
  screen to the point (100, 200).
\<close>

theorem bezier_path_endpoints_witness:
  "2 \<le> MinSteps DefaultMouseConfig \<and>
   MinSteps DefaultMouseConfig \<le> MaxSteps DefaultMouseConfig \<and>
   MaxSteps DefaultMouseConfig \<le> max_int64 \<and>
   (\<exists>ps. generateBezierPath DefaultMouseConfig (Some 7) (Some 1234) (Some 9000) (Some 42)
            (Some 5000) \<lparr>X = 960, Y = 540\<rparr> \<lparr>X = 100, Y = 200\<rparr> = Path ps \<and>
         80 \<le> int (length ps) \<and> int (length ps) \<le> 150 \<and>
         hd ps = \<lparr>X = 960, Y = 540\<rparr> \<and> last ps = \<lparr>X = 100, Y = 200\<rparr>)"
proof -
  have a: "2 \<le> MinSteps DefaultMouseConfig"
    by (simp add: DefaultMouseConfig_def)
  have b: "MinSteps DefaultMouseConfig \<le> MaxSteps DefaultMouseConfig"
    by (simp add: DefaultMouseConfig_def)
  have c: "MaxSteps DefaultMouseConfig \<le> max_int64"
    by (simp add: DefaultMouseConfig_def max_int64_def)
  have d: "MinSteps DefaultMouseConfig < MaxSteps DefaultMouseConfig \<longrightarrow> Some (7::nat) \<noteq> None"
    by simp
  have m: "MinSteps DefaultMouseConfig = 80" "MaxSteps DefaultMouseConfig = 150"
    by (simp_all add: DefaultMouseConfig_def)
  show ?thesis
    using bezier_path_endpoints [OF a b c d, of "Some 1234" "Some 9000" "Some 42" "Some 5000"
        "\<lparr>X = 960, Y = 540\<rparr>" "\<lparr>X = 100, Y = 200\<rparr>"] a b c
    by (simp only: m)
qed

section \<open>Properties of the typing simulator\<close>






































lemma collapse_not_started:
  "collapse_whitespace_from False g cs = collapse_whitespace_from False g' cs"
  by (induction cs arbitrary: g g') auto














end
